theory Spec2Isabelle
  imports Main "HOL-Library.Sublist"
begin

section \<open>The AI reviewer script (scripts/ai-reviewer.py)\<close>

text \<open>
  Python strings are modelled as \<open>string\<close>, the UTF-8 bytes of the text. Every literal the
  file filter compares with is ASCII, and UTF-8 never uses an ASCII byte inside the encoding
  of another code point, so searching for \<open>/\<close>, \<open>.\<close> or an ASCII word gives the same
  answer on bytes as on code points.
\<close>

subsection \<open>Configuration\<close>

text \<open>
  The two configuration sets of the script. A Python set has no duplicates and an iteration
  order that is not fixed; the lists below give the elements in the order of the source
  text, and the lemmas on the file filter show that the order does not matter.
\<close>

definition SUPPORTED_EXTENSIONS :: "string list" where
  "SUPPORTED_EXTENSIONS =
    [''.js'', ''.jsx'', ''.ts'', ''.tsx'', ''.mjs'', ''.cjs'',
     ''.vue'', ''.svelte'', ''.astro'',
     ''.css'', ''.scss'', ''.sass'', ''.less'', ''.styl'',
     ''.html'', ''.htm'', ''.pug'', ''.ejs'', ''.handlebars'', ''.hbs'',
     ''.json'', ''.go'', ''.java'', ''.cpp'', ''.c'', ''.md'']"

definition IGNORE_DIRS :: "string list" where
  "IGNORE_DIRS =
    [''.git'', ''.github'', ''.vscode'', ''.idea'',
     ''node_modules'', ''bower_components'',
     ''dist'', ''build'', ''out'', ''coverage'',
     ''__pycache__'', ''venv'', ''bin'', ''obj'',
     ''.next'', ''.nuxt'', ''.astro'']"

subsection \<open>The string operations of Python that the file filter uses\<close>

text \<open>
  \<open>needle in hay\<close> on strings is \<^const>\<open>sublist\<close> and \<open>s.startswith(t)\<close> is
  \<^const>\<open>prefix\<close>, both from the library. \<open>s.rfind(c)\<close> is the highest index at which
  \<open>c\<close> occurs, and \<open>-1\<close> when it does not occur.
\<close>

fun rfind_from :: "char \<Rightarrow> string \<Rightarrow> int \<Rightarrow> int \<Rightarrow> int" where
  "rfind_from c [] i r = r"
| "rfind_from c (x # xs) i r = rfind_from c xs (i + 1) (if x = c then i else r)"

definition rfind :: "string \<Rightarrow> char \<Rightarrow> int" where
  "rfind p c = rfind_from c p 0 (- 1)"

text \<open>
  \<open>os.path.splitext\<close> on a POSIX host, following \<open>genericpath._splitext\<close> with
  \<open>sep = '/'\<close>, \<open>altsep = None\<close> and \<open>extsep = '.'\<close>:
  \<^verbatim>\<open>
    sepIndex = p.rfind(sep)
    dotIndex = p.rfind(extsep)
    if dotIndex > sepIndex:
        filenameIndex = sepIndex + 1
        while filenameIndex < dotIndex:
            if p[filenameIndex:filenameIndex+1] != extsep:
                return p[:dotIndex], p[dotIndex:]
            filenameIndex += 1
    return p, p[:0]
  \<close>
  The indices are Python integers (\<open>int\<close>); every index that is used for slicing is
  non-negative there, so the slices are \<^const>\<open>take\<close> and \<^const>\<open>drop\<close>.
\<close>

function splitext_loop :: "string \<Rightarrow> int \<Rightarrow> int \<Rightarrow> string \<times> string" where
  "splitext_loop p filenameIndex dotIndex =
     (if filenameIndex < dotIndex then
        (if take 1 (drop (nat filenameIndex) p) \<noteq> ''.''
         then (take (nat dotIndex) p, drop (nat dotIndex) p)
         else splitext_loop p (filenameIndex + 1) dotIndex)
      else (p, take 0 p))"
  by pat_completeness auto
termination
  by (relation "measure (\<lambda>(p, filenameIndex, dotIndex). nat (dotIndex - filenameIndex))") auto

declare splitext_loop.simps [simp del]

definition splitext :: "string \<Rightarrow> string \<times> string" where
  "splitext p =
     (let sepIndex = rfind p CHR ''/'';
          dotIndex = rfind p CHR ''.''
      in if dotIndex > sepIndex then splitext_loop p (sepIndex + 1) dotIndex
         else (p, take 0 p))"

subsection \<open>The file filter\<close>

text \<open>
  \<^verbatim>\<open>
    for ignore_dir in IGNORE_DIRS:
        if f"/{ignore_dir}/" in file_path or file_path.startswith(f"{ignore_dir}/"):
            return True
    ext = os.path.splitext(file_path)[1]
    return ext not in SUPPORTED_EXTENSIONS
  \<close>
  \<open>should_ignore_in\<close> is the function with the iteration order of the set as a
  parameter; \<open>should_ignore_file\<close> runs it in the order of the source text.
\<close>

fun should_ignore_in :: "string list \<Rightarrow> string \<Rightarrow> bool" where
  "should_ignore_in [] file_path =
     (snd (splitext file_path) \<notin> set SUPPORTED_EXTENSIONS)"
| "should_ignore_in (ignore_dir # dirs) file_path =
     (if sublist (''/'' @ ignore_dir @ ''/'') file_path \<or> prefix (ignore_dir @ ''/'') file_path
      then True
      else should_ignore_in dirs file_path)"

definition should_ignore_file :: "string \<Rightarrow> bool" where
  "should_ignore_file file_path = should_ignore_in IGNORE_DIRS file_path"

text \<open>
  The file filter in the words of the specification. The extension of a path is the part of
  its last component from the last dot on, provided that some character other than a dot
  comes before that dot in the component; otherwise the path has no extension.
\<close>

definition basename :: "string \<Rightarrow> string" where
  "basename p = rev (takeWhile (\<lambda>c. c \<noteq> CHR ''/'') (rev p))"

definition extension :: "string \<Rightarrow> string option" where
  "extension p =
     (let b = basename p;
          stem = rev (tl (dropWhile (\<lambda>c. c \<noteq> CHR ''.'') (rev b)));
          ext = CHR ''.'' # rev (takeWhile (\<lambda>c. c \<noteq> CHR ''.'') (rev b))
      in if CHR ''.'' \<in> set b \<and> list_ex (\<lambda>c. c \<noteq> CHR ''.'') stem then Some ext else None)"

definition has_ignored_segment :: "string \<Rightarrow> bool" where
  "has_ignored_segment p =
     list_ex (\<lambda>d. sublist (''/'' @ d @ ''/'') p \<or> prefix (d @ ''/'') p) IGNORE_DIRS"

definition spec_should_ignore :: "string \<Rightarrow> bool" where
  "spec_should_ignore p =
     (has_ignored_segment p \<or>
      (case extension p of None \<Rightarrow> True | Some e \<Rightarrow> e \<notin> set SUPPORTED_EXTENSIONS))"

subsection \<open>Texts and library functions that are left open\<close>

text \<open>
  The prompt template, the header and footer of the review and the heading of the comment
  are fixed texts of the source, most of them not ASCII; \<open>str.lower\<close> and \<open>str.strip\<close>
  follow the Unicode tables of Python. None of them is spelled out here: they are the
  fields of a record that every function below takes as its first argument, so every
  theorem holds for whatever these texts and functions are.
\<close>

record lib =
  str_lower :: "string \<Rightarrow> string"
  str_strip :: "string \<Rightarrow> string"
  prompt_role :: string
  prompt_no_task :: string
  prompt_changes :: string
  prompt_tasks :: string
  LEARNING_RESOURCES :: string
  prompt_example :: string
  review_header :: string
  review_footer :: string
  comment_heading :: string

definition NL :: string where
  "NL = [CHR 0x0A]"

subsection \<open>Parsed JSON\<close>

text \<open>
  The values that \<open>json.load\<close> gives. An object is the list of the items of the Python
  dictionary, looked up with \<^const>\<open>map_of\<close>. The script never computes with a number,
  so a float is kept as its literal.
\<close>

datatype json =
    JNull
  | JBool bool
  | JInt int
  | JFloat string
  | JString string
  | JArray "json list"
  | JObject "(string \<times> json) list"

text \<open>
  \<open>key in v\<close> for a string \<open>key\<close>: membership of the key in a dictionary, of the
  string in a list, the substring test on a string, and a \<open>TypeError\<close> on \<open>None\<close>,
  a boolean and a number, which are not iterable.
\<close>

fun py_contains :: "string \<Rightarrow> json \<Rightarrow> string + bool" where
  "py_contains key (JObject items) = Inr (map_of items key \<noteq> None)"
| "py_contains key (JArray xs) = Inr (JString key \<in> set xs)"
| "py_contains key (JString s) = Inr (sublist key s)"
| "py_contains key JNull = Inl ''TypeError''"
| "py_contains key (JBool b) = Inl ''TypeError''"
| "py_contains key (JInt n) = Inl ''TypeError''"
| "py_contains key (JFloat x) = Inl ''TypeError''"

text \<open>
  \<open>v[key]\<close> for a string \<open>key\<close>: the value in a dictionary or a \<open>KeyError\<close>, and
  a \<open>TypeError\<close> on every other value (a list and a string take integer indices, the
  rest cannot be subscripted).
\<close>

fun py_subscript :: "json \<Rightarrow> string \<Rightarrow> string + json" where
  "py_subscript (JObject items) key =
     (case map_of items key of None \<Rightarrow> Inl ''KeyError'' | Some v \<Rightarrow> Inr v)"
| "py_subscript (JArray xs) key = Inl ''TypeError''"
| "py_subscript (JString s) key = Inl ''TypeError''"
| "py_subscript JNull key = Inl ''TypeError''"
| "py_subscript (JBool b) key = Inl ''TypeError''"
| "py_subscript (JInt n) key = Inl ''TypeError''"
| "py_subscript (JFloat x) key = Inl ''TypeError''"

subsection \<open>What the script prints and which calls it makes\<close>

text \<open>
  One constructor for each \<open>print\<close> of the script, with the values that are formatted
  into the line. An exception is modelled by its text.
\<close>

datatype diag =
    MissingKeyOrToken
  | NotPullRequest
  | FoundTask string
  | CouldNotRead string string
  | FetchingCommits
  | FoundCommits nat
  | ErrorFetchingCommits string
  | ReviewingCommit string string
  | ErrorFetchingChanges string
  | NoRelevantFiles
  | Analyzing nat
  | GeminiError string string
  | NoFeedback
  | CommentPosted
  | CommentFailed nat

text \<open>
  The trace of a run: the printed lines and the four kinds of network call, in the order in
  which they happen. \<open>ListCommits\<close> is the GET of \<open>get_pr_commits\<close>, \<open>GetCommit\<close> the
  GET of \<open>get_commit_changes\<close>, \<open>Generate\<close> is \<open>model.generate_content\<close> and
  \<open>PostComment\<close> the POST of \<open>post_comment\<close>. The repository name comes from
  \<open>os.getenv\<close> without a check, hence the option.
\<close>

datatype event =
    is_Print: Print diag
  | is_ListCommits: ListCommits "string option" json string
  | is_GetCommit: GetCommit "string option" string string
  | is_Generate: Generate string
  | is_PostComment: PostComment "string option" json string string

subsection \<open>The data of the host API\<close>

text \<open>
  A commit of the list has \<open>commit['sha']\<close> and \<open>commit['commit']['message']\<close>; a file
  of a commit has \<open>file_info['filename']\<close>, \<open>file_info['status']\<close> and an optional
  \<open>patch\<close> (\<open>file_info.get('patch', '')\<close>). The responses are taken to have this
  shape, as the host API documents it.
\<close>

record commit =
  sha :: string
  message :: string

record file_info =
  filename :: string
  status :: string
  patch :: "string option"

text \<open>
  The outside world of one run. The answer to a call may change from one call to the next,
  so the answers to the calls made in the loop take the number of earlier calls of the same
  kind. \<open>Inl\<close> is a raised exception. \<open>get_commit_changes\<close> gives
  \<open>commit_data.get('files', [])\<close>, \<open>generate_content\<close> gives \<open>ai_response.text\<close>,
  \<open>requests_post\<close> the status code of the response.
\<close>

record world =
  get_pr_commits :: "string option \<Rightarrow> json \<Rightarrow> string \<Rightarrow> string + commit list"
  get_commit_changes :: "nat \<Rightarrow> string option \<Rightarrow> string \<Rightarrow> string \<Rightarrow> string + file_info list"
  generate_content :: "nat \<Rightarrow> string \<Rightarrow> string + string"
  requests_post :: "string option \<Rightarrow> json \<Rightarrow> string \<Rightarrow> string \<Rightarrow> string + nat"

text \<open>
  The working tree that \<open>os.walk\<close> sees: a directory has a name, its files in listing
  order, each with what reading it as UTF-8 text gives, and its subdirectories in listing
  order.
\<close>

datatype read_result = Content string | ReadError string

datatype tree = Tree (dir_name: string) (dir_files: "(string \<times> read_result) list") (dir_subdirs: "tree list")

text \<open>
  What \<open>open(event_path)\<close> followed by \<open>json.load\<close> gives: an exception of \<open>open\<close>,
  an exception of the JSON parser, or the parsed value, whatever it is.
\<close>

datatype payload = OpenError string | JSONDecodeError string | Parsed json

record env =
  GEMINI_API_KEY :: "string option"
  GITHUB_TOKEN :: "string option"
  GITHUB_REPOSITORY :: "string option"
  GITHUB_EVENT_PATH :: "string option"
  event_file :: "string \<Rightarrow> payload"
  worktree :: tree

subsection \<open>The context loader\<close>

text \<open>\<open>os.path.join\<close> with two arguments, on a POSIX host.\<close>

definition path_join :: "string \<Rightarrow> string \<Rightarrow> string" where
  "path_join a b =
     (if prefix ''/'' b then b
      else if a = [] \<or> suffix ''/'' a then a @ b
      else a @ ''/'' @ b)"

text \<open>
  \<open>os.walk(top)\<close>, top-down, with the pruning that the loop body does on \<open>dirs\<close> before
  the generator goes on: the pairs of \<open>root\<close> and \<open>files\<close> in the order in which the
  loop sees them. The name of the top directory itself is not looked at.
\<close>

fun walk :: "string \<Rightarrow> tree \<Rightarrow> (string \<times> (string \<times> read_result) list) list" where
  "walk root (Tree name files dirs) =
     (root, files) #
     concat (map (\<lambda>d. walk (path_join root (dir_name d)) d)
                 (filter (\<lambda>d. dir_name d \<notin> set IGNORE_DIRS) dirs))"

definition TASK_NAMES :: "string list" where
  "TASK_NAMES = [''readme.md'', ''task.md'', ''exercise.md'', ''assignment.md'']"

text \<open>
  The inner loop over the files of one directory. The state is \<open>exercise_content\<close> and the
  printed lines. A successful read assigns and leaves the loop (\<open>break\<close>); a failed one is
  printed and the loop goes on with the next file.
\<close>

fun scan_files :: "lib \<Rightarrow> string \<Rightarrow> (string \<times> read_result) list \<Rightarrow> string \<times> diag list \<Rightarrow> string \<times> diag list" where
  "scan_files L root [] (exercise_content, out) = (exercise_content, out)"
| "scan_files L root ((file, r) # files) (exercise_content, out) =
     (if str_lower L file \<in> set TASK_NAMES then
        (case r of
           Content text \<Rightarrow> (text, out @ [FoundTask (path_join root file)])
         | ReadError e \<Rightarrow>
             scan_files L root files (exercise_content, out @ [CouldNotRead (path_join root file) e]))
      else scan_files L root files (exercise_content, out))"

text \<open>The outer loop over the directories, left as soon as \<open>exercise_content\<close> is not empty.\<close>

fun scan_dirs :: "lib \<Rightarrow> (string \<times> (string \<times> read_result) list) list \<Rightarrow> string \<times> diag list \<Rightarrow> string \<times> diag list" where
  "scan_dirs L [] st = st"
| "scan_dirs L ((root, files) # rest) st =
     (let st' = scan_files L root files st
      in if fst st' \<noteq> [] then st' else scan_dirs L rest st')"

definition load_context :: "lib \<Rightarrow> tree \<Rightarrow> string \<times> diag list" where
  "load_context L t = scan_dirs L (walk ''.'' t) ([], [])"

text \<open>The matching files of one directory in listing order, with their paths.\<close>

fun dir_candidates :: "lib \<Rightarrow> string \<times> (string \<times> read_result) list \<Rightarrow> (string \<times> read_result) list" where
  "dir_candidates L (root, files) =
     map (\<lambda>(file, r). (path_join root file, r))
         (filter (\<lambda>(file, r). str_lower L file \<in> set TASK_NAMES) files)"

text \<open>
  The matching files of a whole tree in the order of the specification, by recursion on the
  tree and not by way of \<open>walk\<close>: top-down, first the matching files of the directory
  itself in listing order, then those of its subdirectories in listing order, where a
  subdirectory with a denylisted name is left out together with everything below it.
\<close>

fun task_files :: "lib \<Rightarrow> string \<Rightarrow> tree \<Rightarrow> (string \<times> read_result) list" where
  "task_files L root (Tree name files dirs) =
     dir_candidates L (root, files) @
     concat (map (\<lambda>d. task_files L (path_join root (dir_name d)) d)
                 (filter (\<lambda>d. dir_name d \<notin> set IGNORE_DIRS) dirs))"

definition candidates :: "lib \<Rightarrow> tree \<Rightarrow> (string \<times> read_result) list" where
  "candidates L t = task_files L ''.'' t"

fun readable :: "string \<times> read_result \<Rightarrow> bool" where
  "readable (p, Content text) = True"
| "readable (p, ReadError e) = False"

text \<open>The lines printed for the failed reads among some files.\<close>

fun failures :: "(string \<times> read_result) list \<Rightarrow> diag list" where
  "failures [] = []"
| "failures ((p, ReadError e) # cs) = CouldNotRead p e # failures cs"
| "failures ((p, Content text) # cs) = failures cs"

text \<open>
  The context loader in the words of the specification: the text of the first matching
  file, and the empty text when there is no matching file or reading it fails.
\<close>

definition spec_load_context :: "lib \<Rightarrow> tree \<Rightarrow> string" where
  "spec_load_context L t =
     (case candidates L t of
        [] \<Rightarrow> []
      | (p, Content text) # rest \<Rightarrow> text
      | (p, ReadError e) # rest \<Rightarrow> [])"

subsection \<open>The files of one commit\<close>

text \<open>
  \<^verbatim>\<open>
    for file_info in files:
        file_path = file_info['filename']
        if should_ignore_file(file_path):
            continue
        patch = file_info.get('patch', '')
        if patch:
            changed_content += f"\n--- FILE: {file_path} ---\n"
            changed_content += f"Status: {file_info['status']}\n"
            changed_content += f"Changes:\n{patch}\n"
            file_count += 1
  \<close>
\<close>

definition file_section :: "file_info \<Rightarrow> string" where
  "file_section file_info =
     NL @ ''--- FILE: '' @ filename file_info @ '' ---'' @ NL @
     ''Status: '' @ status file_info @ NL @
     ''Changes:'' @ NL @ (case patch file_info of None \<Rightarrow> [] | Some p \<Rightarrow> p) @ NL"

fun collect_changes :: "file_info list \<Rightarrow> string \<times> nat \<Rightarrow> string \<times> nat" where
  "collect_changes [] (changed_content, file_count) = (changed_content, file_count)"
| "collect_changes (file_info # files) (changed_content, file_count) =
     (if should_ignore_file (filename file_info)
      then collect_changes files (changed_content, file_count)
      else if (case patch file_info of None \<Rightarrow> [] | Some p \<Rightarrow> p) \<noteq> []
      then collect_changes files (changed_content @ file_section file_info, file_count + 1)
      else collect_changes files (changed_content, file_count))"

text \<open>The files of a commit that the specification wants in the prompt.\<close>

definition passes_filter :: "file_info \<Rightarrow> bool" where
  "passes_filter f = (\<not> should_ignore_file (filename f))"

definition has_patch :: "file_info \<Rightarrow> bool" where
  "has_patch f = (patch f \<noteq> None \<and> patch f \<noteq> Some [])"

definition included_files :: "file_info list \<Rightarrow> file_info list" where
  "included_files files = filter has_patch (filter passes_filter files)"

subsection \<open>The prompt and the feedback of one commit\<close>

definition build_prompt :: "lib \<Rightarrow> string \<Rightarrow> string \<Rightarrow> string" where
  "build_prompt L exercise_content changed_content =
     prompt_role L @
     (if exercise_content \<noteq> [] then exercise_content else prompt_no_task L) @
     prompt_changes L @ changed_content @
     prompt_tasks L @ LEARNING_RESOURCES L @ prompt_example L"

definition format_feedback :: "string \<Rightarrow> string \<Rightarrow> string \<Rightarrow> string" where
  "format_feedback short_sha commit_message feedback =
     ''**[`'' @ short_sha @ ''`]** '' @ commit_message @ NL @ NL @ feedback"

subsection \<open>The loop over the commits\<close>

record state =
  trace :: "event list"
  all_feedback :: "string list"

definition emit :: "event list \<Rightarrow> state \<Rightarrow> state" where
  "emit es st = st\<lparr>trace := trace st @ es\<rparr>"

definition calls_so_far :: "(event \<Rightarrow> bool) \<Rightarrow> state \<Rightarrow> nat" where
  "calls_so_far kind st = length (filter kind (trace st))"

text \<open>
  The body of the loop for one commit. Each \<open>continue\<close> of the source is a branch that
  returns the state reached so far.
\<close>

definition review_commit :: "lib \<Rightarrow> world \<Rightarrow> string option \<Rightarrow> string \<Rightarrow> string \<Rightarrow> commit \<Rightarrow> state \<Rightarrow> state" where
  "review_commit L W repo_full_name github_token exercise_content c st =
     (let commit_sha = sha c;
          commit_message = message c;
          short_sha = take 7 commit_sha;
          st1 = emit [Print (ReviewingCommit short_sha commit_message),
                      GetCommit repo_full_name commit_sha github_token] st
      in case get_commit_changes W (calls_so_far is_GetCommit st) repo_full_name commit_sha github_token of
           Inl e \<Rightarrow> emit [Print (ErrorFetchingChanges e)] st1
         | Inr files \<Rightarrow>
             (let (changed_content, file_count) = collect_changes files ([], 0)
              in if file_count = 0 then emit [Print NoRelevantFiles] st1
                 else
                   (let prompt = build_prompt L exercise_content changed_content;
                        st2 = emit [Print (Analyzing file_count), Generate prompt] st1
                    in case generate_content W (calls_so_far is_Generate st) prompt of
                         Inl e \<Rightarrow> emit [Print (GeminiError short_sha e)] st2
                       | Inr text \<Rightarrow>
                           st2\<lparr>all_feedback := all_feedback st2 @
                                  [format_feedback short_sha commit_message (str_strip L text)]\<rparr>)))"

fun review_commits :: "lib \<Rightarrow> world \<Rightarrow> string option \<Rightarrow> string \<Rightarrow> string \<Rightarrow> commit list \<Rightarrow> state \<Rightarrow> state" where
  "review_commits L W repo_full_name github_token exercise_content [] st = st"
| "review_commits L W repo_full_name github_token exercise_content (c # commits) st =
     review_commits L W repo_full_name github_token exercise_content commits
       (review_commit L W repo_full_name github_token exercise_content c st)"

subsection \<open>Posting the comment and the whole run\<close>

datatype outcome = Returned | Raised string

record result =
  events :: "event list"
  feedback :: "string list"
  outcome :: outcome

text \<open>\<open>"\n\n---\n\n".join(all_feedback)\<close>\<close>

fun join :: "string \<Rightarrow> string list \<Rightarrow> string" where
  "join sep [] = []"
| "join sep [x] = x"
| "join sep (x # y # ys) = x @ sep @ join sep (y # ys)"

text \<open>
  \<open>post_comment\<close>: the POST is not inside a \<open>try\<close>, so an exception of
  \<open>requests.post\<close> leaves \<open>main\<close>; a status other than 201 is printed.
\<close>

definition post_comment :: "lib \<Rightarrow> world \<Rightarrow> string option \<Rightarrow> json \<Rightarrow> string \<Rightarrow> string \<Rightarrow> state \<Rightarrow> result" where
  "post_comment L W repo pr_num token body st =
     (let data = comment_heading L @ body;
          tr = trace st @ [PostComment repo pr_num token data]
      in case requests_post W repo pr_num token data of
           Inl e \<Rightarrow> \<lparr>events = tr, feedback = all_feedback st, outcome = Raised e\<rparr>
         | Inr status_code \<Rightarrow>
             \<lparr>events = tr @ [Print (if status_code = 201 then CommentPosted
                                      else CommentFailed status_code)],
              feedback = all_feedback st, outcome = Returned\<rparr>)"

text \<open>The end of \<open>main\<close>, after the loop.\<close>

definition publish :: "lib \<Rightarrow> world \<Rightarrow> string option \<Rightarrow> json \<Rightarrow> string \<Rightarrow> state \<Rightarrow> result" where
  "publish L W repo_full_name pr_number github_token st =
     (if all_feedback st = []
      then \<lparr>events = trace st @ [Print NoFeedback], feedback = all_feedback st,
            outcome = Returned\<rparr>
      else
        (let combined_feedback =
               review_header L @ join (NL @ NL @ ''---'' @ NL @ NL) (all_feedback st) @
               review_footer L
         in post_comment L W repo_full_name pr_number github_token combined_feedback st))"

text \<open>Python's truth value of what \<open>os.getenv\<close> gives: \<open>None\<close> and \<open>''\<close> are false.\<close>

fun truthy :: "string option \<Rightarrow> bool" where
  "truthy None = False"
| "truthy (Some v) = (v \<noteq> [])"

text \<open>
  \<open>main\<close>. The field \<open>feedback\<close> of the result is \<open>all_feedback\<close> as it is when the
  run ends. \<open>open(None)\<close> raises a \<open>TypeError\<close>; this, the exceptions of \<open>open\<close>
  and \<open>json.load\<close>, and those of the three operations on \<open>event_data\<close>
  \<^verbatim>\<open>
    if 'pull_request' in event_data:
        pr_number = event_data['pull_request']['number']
  \<close>
  are raised outside every \<open>try\<close>.
\<close>

definition main :: "lib \<Rightarrow> env \<Rightarrow> world \<Rightarrow> result" where
  "main L E W =
     (let gemini_key = GEMINI_API_KEY E;
          github_token = GITHUB_TOKEN E;
          raised = (\<lambda>e. \<lparr>events = [], feedback = [], outcome = Raised e\<rparr>)
      in if \<not> truthy gemini_key \<or> \<not> truthy github_token
         then \<lparr>events = [Print MissingKeyOrToken], feedback = [], outcome = Returned\<rparr>
         else
           (let repo_full_name = GITHUB_REPOSITORY E;
                token = (case github_token of None \<Rightarrow> [] | Some t \<Rightarrow> t)
            in case GITHUB_EVENT_PATH E of
                 None \<Rightarrow> raised ''TypeError''
               | Some event_path \<Rightarrow>
                   (case event_file E event_path of
                      OpenError e \<Rightarrow> raised e
                    | JSONDecodeError e \<Rightarrow> raised e
                    | Parsed event_data \<Rightarrow>
                        (case py_contains ''pull_request'' event_data of
                           Inl e \<Rightarrow> raised e
                         | Inr False \<Rightarrow>
                             \<lparr>events = [Print NotPullRequest], feedback = [], outcome = Returned\<rparr>
                         | Inr True \<Rightarrow>
                             (case py_subscript event_data ''pull_request'' of
                                Inl e \<Rightarrow> raised e
                              | Inr pull_request \<Rightarrow>
                                  (case py_subscript pull_request ''number'' of
                                     Inl e \<Rightarrow> raised e
                                   | Inr pr_number \<Rightarrow>
                                       (let (exercise_content, out) = load_context L (worktree E);
                                            tr = map Print out @
                                                 [Print FetchingCommits,
                                                  ListCommits repo_full_name pr_number token]
                                        in case get_pr_commits W repo_full_name pr_number token of
                                             Inl e \<Rightarrow>
                                               \<lparr>events = tr @ [Print (ErrorFetchingCommits e)],
                                                feedback = [], outcome = Returned\<rparr>
                                           | Inr commits \<Rightarrow>
                                               publish L W repo_full_name pr_number token
                                                 (review_commits L W repo_full_name token
                                                    exercise_content commits
                                                    \<lparr>trace = tr @ [Print (FoundCommits (length commits))],
                                                     all_feedback = []\<rparr>))))))))"

text \<open>
  The state in which the loop over the commits starts: what has been printed and called
  before it, and an empty \<open>all_feedback\<close>.
\<close>

definition loop_entry :: "diag list \<Rightarrow> string option \<Rightarrow> json \<Rightarrow> string \<Rightarrow> nat \<Rightarrow> state" where
  "loop_entry out repo_full_name pr_number token n =
     \<lparr>trace = map Print out @
              [Print FetchingCommits, ListCommits repo_full_name pr_number token,
               Print (FoundCommits n)],
      all_feedback = []\<rparr>"

subsection \<open>Concrete inputs\<close>

text \<open>
  Letter case on ASCII, used to say that two extensions differ in case only and as the
  \<open>str.lower\<close> of the concrete inputs.
\<close>

definition ascii_lower :: "char \<Rightarrow> char" where
  "ascii_lower c =
     (let n = (of_char c :: nat) in if 65 \<le> n \<and> n \<le> 90 then char_of (n + 32) else c)"

definition example_lib :: lib where
  "example_lib =
     \<lparr>str_lower = map ascii_lower, str_strip = id,
      prompt_role = ''ROLE '', prompt_no_task = ''NO TASK'', prompt_changes = '' CHANGES '',
      prompt_tasks = '' TASKS '', LEARNING_RESOURCES = ''RESOURCES'', prompt_example = '' EXAMPLE'',
      review_header = ''HEADER '', review_footer = '' FOOTER'', comment_heading = ''HEADING ''\<rparr>"

definition unreadable_first :: tree where
  "unreadable_first =
     Tree ''.'' [(''README.md'', ReadError ''PermissionError''), (''task.md'', Content ''Build a form'')] []"

definition empty_first :: tree where
  "empty_first =
     Tree ''.'' [(''README.md'', Content [])]
       [Tree ''docs'' [(''task.md'', Content ''Build a form'')] []]"

definition unreadable_only :: tree where
  "unreadable_only = Tree ''.'' [(''notes.txt'', Content ''x''), (''Task.MD'', ReadError ''UnicodeDecodeError'')] []"

text \<open>
  A tree with subdirectories: the \<open>README.md\<close> of \<open>node_modules\<close> and the
  \<open>task.md\<close> below \<open>src/dist\<close> are in denylisted directories, the first matching
  file outside them cannot be read, the second one can.
\<close>

definition nested_tree :: tree where
  "nested_tree =
     Tree ''.'' [(''index.html'', Content ''<form>'')]
       [Tree ''node_modules'' [(''README.md'', Content ''a package'')] [],
        Tree ''src'' [(''app.js'', Content ''var a;'')]
          [Tree ''dist'' [(''task.md'', Content ''generated'')] []],
        Tree ''docs'' [(''README.md'', ReadError ''PermissionError''),
                       (''task.md'', Content ''Build a form'')] []]"

text \<open>A tree in which the first matching file that can be read is empty.\<close>

definition unreadable_then_empty :: tree where
  "unreadable_then_empty =
     Tree ''.'' [(''README.md'', ReadError ''PermissionError''), (''task.md'', Content [])] []"

definition index_html :: file_info where
  "index_html = \<lparr>filename = ''index.html'', status = ''modified'', patch = Some ''+<label>Name</label>''\<rparr>"

definition bundle_js :: file_info where
  "bundle_js = \<lparr>filename = ''dist/bundle.js'', status = ''added'', patch = Some ''+var a;''\<rparr>"

definition notes_md :: file_info where
  "notes_md = \<lparr>filename = ''notes.md'', status = ''renamed'', patch = None\<rparr>"

definition add_form :: commit where
  "add_form = \<lparr>sha = ''abc1234def5678'', message = ''add form''\<rparr>"

definition add_bundle :: commit where
  "add_bundle = \<lparr>sha = ''0123456789abcd'', message = ''add bundle''\<rparr>"

definition pull_request_items :: "(string \<times> json) list" where
  "pull_request_items = [(''number'', JInt 7), (''title'', JString ''Form'')]"

definition event_items :: "(string \<times> json) list" where
  "event_items =
     [(''action'', JString ''opened''), (''pull_request'', JObject pull_request_items)]"

definition example_env :: env where
  "example_env =
     \<lparr>GEMINI_API_KEY = Some ''key'', GITHUB_TOKEN = Some ''token'',
      GITHUB_REPOSITORY = Some ''owner/repo'', GITHUB_EVENT_PATH = Some ''event.json'',
      event_file = (\<lambda>p. if p = ''event.json'' then Parsed (JObject event_items)
                         else OpenError ''FileNotFoundError''),
      worktree = unreadable_first\<rparr>"

text \<open>
  A world in which the first commit has one file for the prompt, the second commit has only
  a file of a denylisted directory, the model answers the first call and the comment is
  created.
\<close>

definition example_world :: world where
  "example_world =
     \<lparr>get_pr_commits = (\<lambda>repo pr token. Inr [add_form, add_bundle]),
      get_commit_changes = (\<lambda>k repo commit_sha token.
         if k = 0 then Inr [index_html, notes_md] else Inr [bundle_js]),
      generate_content = (\<lambda>k prompt. Inr ''Well done''),
      requests_post = (\<lambda>repo pr token body. Inr 201)\<rparr>"

text \<open>The same world with a model that raises on every call.\<close>

definition failing_model_world :: world where
  "failing_model_world = example_world\<lparr>generate_content := (\<lambda>k prompt. Inl ''ResourceExhausted'')\<rparr>"

definition start :: state where
  "start = \<lparr>trace = [], all_feedback = []\<rparr>"

text \<open>
  A world in which every commit has one file for the prompt and the model raises on its
  first call only.
\<close>

definition first_call_fails_world :: world where
  "first_call_fails_world =
     example_world\<lparr>get_commit_changes := (\<lambda>k repo commit_sha token. Inr [index_html]),
                    generate_content := (\<lambda>k prompt. if k = 0 then Inl ''ResourceExhausted''
                                                       else Inr ''Well done'')\<rparr>"

text \<open>The entry that the loop appends for a commit when the model answers.\<close>

definition entry :: "commit \<Rightarrow> string \<Rightarrow> string" where
  "entry c tx = format_feedback (take 7 (sha c)) (message c) tx"

text \<open>Environments and a world for the fatal paths.\<close>

definition no_event_path :: env where
  "no_event_path = example_env\<lparr>GITHUB_EVENT_PATH := None\<rparr>"

definition unreadable_event :: env where
  "unreadable_event = example_env\<lparr>GITHUB_EVENT_PATH := Some ''missing.json''\<rparr>"

definition malformed_event :: env where
  "malformed_event = example_env\<lparr>event_file := (\<lambda>p. JSONDecodeError ''Expecting value'')\<rparr>"

definition push_event :: env where
  "push_event =
     example_env\<lparr>event_file := (\<lambda>p. Parsed (JObject [(''ref'', JString ''refs/heads/main'')]))\<rparr>"

definition null_event :: env where
  "null_event = example_env\<lparr>event_file := (\<lambda>p. Parsed JNull)\<rparr>"

definition no_number_event :: env where
  "no_number_event =
     example_env\<lparr>event_file :=
       (\<lambda>p. Parsed (JObject [(''pull_request'', JObject [(''title'', JString ''Form'')])]))\<rparr>"

definition null_pull_request_event :: env where
  "null_pull_request_event =
     example_env\<lparr>event_file := (\<lambda>p. Parsed (JObject [(''pull_request'', JNull)]))\<rparr>"

definition no_commit_list_world :: world where
  "no_commit_list_world = example_world\<lparr>get_pr_commits := (\<lambda>repo pr token. Inl ''HTTPError'')\<rparr>"

text \<open>Two strings that differ at most in the case of ASCII letters.\<close>

definition same_up_to_case :: "string \<Rightarrow> string \<Rightarrow> bool" where
  "same_up_to_case a b = (map ascii_lower a = map ascii_lower b)"

section \<open>Properties\<close>

subsection \<open>The file filter\<close>

lemma rfind_from_absent: "c \<notin> set xs \<Longrightarrow> rfind_from c xs i r = r"
  by (induction xs arbitrary: i r) auto

lemma rfind_from_last: "c \<notin> set b \<Longrightarrow> rfind_from c (a @ c # b) i r = i + int (length a)"
  by (induction a arbitrary: i r) (auto simp: rfind_from_absent)

lemma rfind_absent: "c \<notin> set p \<Longrightarrow> rfind p c = - 1"
  by (simp add: rfind_def rfind_from_absent)

lemma rfind_last: "c \<notin> set b \<Longrightarrow> rfind (a @ c # b) c = int (length a)"
  by (simp add: rfind_def rfind_from_last)

lemma rfind_bounds: "- 1 \<le> rfind p c \<and> rfind p c < int (length p)"
proof (cases "c \<in> set p")
  case True
  then obtain a b where "p = a @ c # b" "c \<notin> set b"
    by (meson split_list_last)
  then show ?thesis by (simp add: rfind_last)
next
  case False
  then show ?thesis by (simp add: rfind_absent)
qed

lemma splitext_loop_scan:
  "splitext_loop (u @ s @ r) (int (length u)) (int (length u + length s)) =
     (if list_ex (\<lambda>c. c \<noteq> CHR ''.'') s then (u @ s, r) else (u @ s @ r, []))"
proof (induction s arbitrary: u)
  case Nil
  show ?case by (subst splitext_loop.simps) simp
next
  case (Cons x s)
  have step: "splitext_loop ((u @ [x]) @ s @ r) (int (length (u @ [x]))) (int (length (u @ [x]) + length s)) =
     (if list_ex (\<lambda>c. c \<noteq> CHR ''.'') s then ((u @ [x]) @ s, r) else ((u @ [x]) @ s @ r, []))"
    by (rule Cons.IH)
  show ?case
  proof (cases "x = CHR ''.''")
    case True
    with step show ?thesis
      by (subst splitext_loop.simps) (simp add: add.commute)
  next
    case False
    then show ?thesis
      by (subst splitext_loop.simps) (simp add: nat_add_distrib)
  qed
qed

lemma takeWhile_upto: "c \<notin> set xs \<Longrightarrow> takeWhile (\<lambda>x. x \<noteq> c) (xs @ c # ys) = xs"
  by (induction xs) auto

lemma dropWhile_upto: "c \<notin> set xs \<Longrightarrow> dropWhile (\<lambda>x. x \<noteq> c) (xs @ c # ys) = c # ys"
  by (induction xs) auto

lemma takeWhile_all: "c \<notin> set xs \<Longrightarrow> takeWhile (\<lambda>x. x \<noteq> c) xs = xs"
  by (induction xs) auto


lemma path_split:
  obtains d b where "p = d @ b" "CHR ''/'' \<notin> set b" "rfind p CHR ''/'' + 1 = int (length d)"
    "basename p = b" "d = [] \<or> last d = CHR ''/''"
proof (cases "CHR ''/'' \<in> set p")
  case True
  then obtain a b where p: "p = a @ CHR ''/'' # b" and b: "CHR ''/'' \<notin> set b"
    by (meson split_list_last)
  show ?thesis
  proof (rule that[of "a @ ''/''" b])
    show "basename p = b" using p b by (simp add: basename_def takeWhile_upto)
  qed (use p b in \<open>simp_all add: rfind_last\<close>)
next
  case False
  show ?thesis
  proof (rule that[of "[]" p])
    show "basename p = p" using False by (simp add: basename_def takeWhile_all)
  qed (use False in \<open>simp_all add: rfind_absent\<close>)
qed

lemma splitext_extension:
  "snd (splitext p) = (case extension p of None \<Rightarrow> [] | Some e \<Rightarrow> e)"
proof -
  obtain d b where p: "p = d @ b" and b: "CHR ''/'' \<notin> set b"
    and sep: "rfind p CHR ''/'' + 1 = int (length d)" and base: "basename p = b"
    and d: "d = [] \<or> last d = CHR ''/''"
    by (rule path_split)
  show ?thesis
  proof (cases "CHR ''.'' \<in> set b")
    case True
    then obtain s e where be: "b = s @ CHR ''.'' # e" and e: "CHR ''.'' \<notin> set e"
      by (meson split_list_last)
    have dot: "rfind p CHR ''.'' = int (length d + length s)"
      using rfind_last[of "CHR ''.''" e "d @ s"] e by (simp add: p be)
    have loop: "splitext p = splitext_loop (d @ s @ CHR ''.'' # e) (int (length d)) (int (length d + length s))"
      using sep dot by (simp add: splitext_def Let_def p be)
    have ext: "extension p = (if list_ex (\<lambda>c. c \<noteq> CHR ''.'') s then Some (CHR ''.'' # e) else None)"
      using e by (simp add: extension_def Let_def base be takeWhile_upto dropWhile_upto)
    show ?thesis
      using splitext_loop_scan[of d s "CHR ''.'' # e"] by (simp add: loop ext)
  next
    case False
    have "rfind p CHR ''.'' \<le> rfind p CHR ''/''"
    proof (cases "CHR ''.'' \<in> set d")
      case True
      then obtain a1 a2 where d12: "d = a1 @ CHR ''.'' # a2" and a2: "CHR ''.'' \<notin> set a2"
        by (meson split_list_last)
      have "rfind p CHR ''.'' = int (length a1)"
        using rfind_last[of "CHR ''.''" "a2 @ b" a1] a2 False by (simp add: p d12)
      moreover have "a2 \<noteq> []" using d d12 by auto
      ultimately show ?thesis using sep by (simp add: d12)
    next
      case nd: False
      with False have "CHR ''.'' \<notin> set p" by (simp add: p)
      then have "rfind p CHR ''.'' = - 1" by (rule rfind_absent)
      then show ?thesis using rfind_bounds[of p "CHR ''/''"] by simp
    qed
    then have "splitext p = (p, [])" by (simp add: splitext_def Let_def)
    moreover have "extension p = None" using False by (simp add: extension_def Let_def base)
    ultimately show ?thesis by simp
  qed
qed

lemma should_ignore_in_iff:
  "should_ignore_in ds p \<longleftrightarrow>
     list_ex (\<lambda>d. sublist (''/'' @ d @ ''/'') p \<or> prefix (d @ ''/'') p) ds \<or>
     snd (splitext p) \<notin> set SUPPORTED_EXTENSIONS"
  by (induction ds) auto

lemma empty_not_supported: "[] \<notin> set SUPPORTED_EXTENSIONS"
  by (simp add: SUPPORTED_EXTENSIONS_def)

lemma ext_supported_iff:
  "snd (splitext p) \<notin> set SUPPORTED_EXTENSIONS \<longleftrightarrow>
     (case extension p of None \<Rightarrow> True | Some e \<Rightarrow> e \<notin> set SUPPORTED_EXTENSIONS)"
  using empty_not_supported by (simp add: splitext_extension split: option.split)


text \<open>
  C1. For every path, \<open>should_ignore_file\<close> is true exactly when the path has a
  denylisted directory name as a segment (\<open>/dir/\<close> somewhere in it, or \<open>dir/\<close> at its
  start) or its extension is absent or not in the allowlist. The result is a function of
  the path alone: the order in which the set of directory names is iterated does not
  change it.
\<close>

theorem should_ignore_file_spec:
  "should_ignore_file p = spec_should_ignore p \<and>
   (\<forall>ds. set ds = set IGNORE_DIRS \<longrightarrow> should_ignore_in ds p = should_ignore_file p)"
  unfolding should_ignore_file_def spec_should_ignore_def has_ignored_segment_def
    should_ignore_in_iff ext_supported_iff
  by (auto simp: list_ex_iff)

theorem should_ignore_file_spec_witness:
  "should_ignore_file ''src/index.html'' = spec_should_ignore ''src/index.html'' \<and>
   \<not> should_ignore_file ''src/index.html'' \<and>
   set (rev IGNORE_DIRS) = set IGNORE_DIRS \<and>
   should_ignore_in (rev IGNORE_DIRS) ''src/index.html'' = should_ignore_file ''src/index.html''"
proof -
  have a: "\<not> should_ignore_file ''src/index.html''"
    by (simp add: should_ignore_file_def IGNORE_DIRS_def SUPPORTED_EXTENSIONS_def sublist_code
        splitext_def rfind_def Let_def splitext_loop.simps)
  show ?thesis
    using should_ignore_file_spec[of "''src/index.html''"] a by simp
qed

subsection \<open>The context loader\<close>

lemma failures_append: "failures (xs @ ys) = failures xs @ failures ys"
  by (induction xs rule: failures.induct) auto

lemma scan_files_none_readable:
  "list_all (\<lambda>c. \<not> readable c) (dir_candidates L (root, files)) \<Longrightarrow>
   scan_files L root files (ec, out) = (ec, out @ failures (dir_candidates L (root, files)))"
proof (induction files arbitrary: out)
  case Nil
  show ?case by simp
next
  case (Cons f files)
  obtain fname r where f: "f = (fname, r)" by (cases f)
  show ?case
  proof (cases "str_lower L fname \<in> set TASK_NAMES")
    case True
    with Cons.prems f obtain e where r: "r = ReadError e"
      by (cases r) auto
    from Cons.prems f True r
    have "list_all (\<lambda>c. \<not> readable c) (dir_candidates L (root, files))" by simp
    from Cons.IH[OF this] show ?thesis using f True r by simp
  next
    case False
    with Cons.prems f
    have "list_all (\<lambda>c. \<not> readable c) (dir_candidates L (root, files))" by simp
    from Cons.IH[OF this] show ?thesis using f False by simp
  qed
qed

lemma scan_files_first_readable:
  "dir_candidates L (root, files) = fs @ (p, Content tx) # rest \<Longrightarrow>
   list_all (\<lambda>c. \<not> readable c) fs \<Longrightarrow>
   scan_files L root files (ec, out) = (tx, out @ failures fs @ [FoundTask p])"
proof (induction files arbitrary: fs out)
  case Nil
  then show ?case by simp
next
  case (Cons f files)
  obtain fname r where f: "f = (fname, r)" by (cases f)
  show ?case
  proof (cases "str_lower L fname \<in> set TASK_NAMES")
    case False
    with Cons.prems f
    have "dir_candidates L (root, files) = fs @ (p, Content tx) # rest" by simp
    from Cons.IH[OF this Cons.prems(2)] show ?thesis using f False by simp
  next
    case True
    then have dc: "(path_join root fname, r) # dir_candidates L (root, files) = fs @ (p, Content tx) # rest"
      using Cons.prems(1) f by simp
    show ?thesis
    proof (cases r)
      case (Content c)
      have "fs = []"
      proof (cases fs)
        case (Cons g gs)
        with dc have "g = (path_join root fname, r)" by simp
        with Cons.prems(2) Cons Content show ?thesis by simp
      qed simp
      with dc Content have "p = path_join root fname" "tx = c" by simp_all
      then show ?thesis using f True Content \<open>fs = []\<close> by simp
    next
      case (ReadError e)
      from dc ReadError obtain gs where fs: "fs = (path_join root fname, r) # gs"
        by (cases fs) auto
      with dc have "dir_candidates L (root, files) = gs @ (p, Content tx) # rest" by simp
      moreover from Cons.prems(2) fs have "list_all (\<lambda>c. \<not> readable c) gs" by simp
      ultimately have "scan_files L root files (ec, out @ [CouldNotRead (path_join root fname) e]) =
          (tx, (out @ [CouldNotRead (path_join root fname) e]) @ failures gs @ [FoundTask p])"
        by (rule Cons.IH)
      then show ?thesis using f True ReadError fs by simp
    qed
  qed
qed

lemma scan_dirs_none_readable:
  "list_all (\<lambda>c. \<not> readable c) (concat (map (dir_candidates L) ds)) \<Longrightarrow>
   scan_dirs L ds ([], out) = ([], out @ failures (concat (map (dir_candidates L) ds)))"
proof (induction ds arbitrary: out)
  case Nil
  show ?case by simp
next
  case (Cons d ds)
  obtain root files where d: "d = (root, files)" by (cases d)
  from Cons.prems d have here: "list_all (\<lambda>c. \<not> readable c) (dir_candidates L (root, files))"
    and later: "list_all (\<lambda>c. \<not> readable c) (concat (map (dir_candidates L) ds))"
    by simp_all
  have "scan_files L root files ([], out) = ([], out @ failures (dir_candidates L (root, files)))"
    using here by (rule scan_files_none_readable)
  then show ?case
    using Cons.IH[OF later] d by (simp add: failures_append del: dir_candidates.simps)
qed

lemma scan_files_extends: "prefix out (snd (scan_files L root files (ec, out)))"
proof (induction files arbitrary: ec out)
  case Nil
  show ?case by simp
next
  case (Cons f files)
  obtain fname r where f: "f = (fname, r)" by (cases f)
  have same: "prefix out (snd (scan_files L root files (ec, out)))"
    by (rule Cons.IH)
  have longer: "prefix out (snd (scan_files L root files (ec, out @ [x])))" for x
  proof -
    have "prefix out (out @ [x])" by simp
    also have "prefix \<dots> (snd (scan_files L root files (ec, out @ [x])))"
      by (rule Cons.IH)
    finally show ?thesis .
  qed
  show ?case using f same longer by (cases r) auto
qed

lemma scan_dirs_extends: "prefix (snd st) (snd (scan_dirs L ds st))"
proof (induction ds arbitrary: st)
  case Nil
  show ?case by simp
next
  case (Cons d ds)
  obtain root files where d: "d = (root, files)" by (cases d)
  obtain ec out where st: "st = (ec, out)" by (cases st)
  let ?next = "scan_files L root files (ec, out)"
  have "prefix out (snd ?next)" by (rule scan_files_extends)
  also have "prefix (snd ?next) (snd (scan_dirs L ds ?next))" by (rule Cons.IH)
  finally have "prefix out (snd (scan_dirs L ds ?next))" .
  with \<open>prefix out (snd ?next)\<close> show ?case
    using d st by (simp add: Let_def)
qed

lemma scan_dirs_first_readable:
  "concat (map (dir_candidates L) ds) = fs @ (p, Content tx) # rest \<Longrightarrow>
   list_all (\<lambda>c. \<not> readable c) fs \<Longrightarrow>
   prefix (out @ failures fs @ [FoundTask p]) (snd (scan_dirs L ds ([], out))) \<and>
   (tx \<noteq> [] \<longrightarrow> scan_dirs L ds ([], out) = (tx, out @ failures fs @ [FoundTask p]))"
proof (induction ds arbitrary: fs out)
  case Nil
  then show ?case by simp
next
  case (Cons d ds)
  obtain root files where d: "d = (root, files)" by (cases d)
  let ?here = "dir_candidates L (root, files)"
  let ?later = "concat (map (dir_candidates L) ds)"
  from Cons.prems(1) d have eq: "?here @ ?later = fs @ (p, Content tx) # rest"
    by simp
  then consider (inside) us where "?here = fs @ (p, Content tx) # us"
    | (beyond) us where "fs = ?here @ us" "?later = us @ (p, Content tx) # rest"
  proof -
    from eq obtain us where
      "(?here = fs @ us \<and> us @ ?later = (p, Content tx) # rest) \<or>
       (?here @ us = fs \<and> ?later = us @ (p, Content tx) # rest)"
      unfolding append_eq_append_conv2 by blast
    then show ?thesis
    proof (elim disjE conjE)
      assume a: "?here = fs @ us" "us @ ?later = (p, Content tx) # rest"
      show ?thesis
      proof (cases us)
        case Nil
        with a have "fs = ?here @ []" "?later = [] @ (p, Content tx) # rest" by simp_all
        then show ?thesis by (rule beyond)
      next
        case (Cons u us')
        with a have "?here = fs @ (p, Content tx) # us'" by simp
        then show ?thesis by (rule inside)
      qed
    next
      assume "?here @ us = fs" "?later = us @ (p, Content tx) # rest"
      then show ?thesis using beyond by blast
    qed
  qed
  then show ?case
  proof cases
    case inside
    let ?found = "(tx, out @ failures fs @ [FoundTask p])"
    have here: "scan_files L root files ([], out) = ?found"
      using inside Cons.prems(2) by (rule scan_files_first_readable)
    show ?thesis
    proof (cases "tx = []")
      case True
      have "prefix (snd ?found) (snd (scan_dirs L ds ?found))"
        by (rule scan_dirs_extends)
      then show ?thesis using d here True by (simp add: Let_def)
    next
      case False
      then show ?thesis using d here by (simp add: Let_def)
    qed
  next
    case beyond
    from Cons.prems(2) beyond(1) have unreadable: "list_all (\<lambda>c. \<not> readable c) ?here"
      and us: "list_all (\<lambda>c. \<not> readable c) us" by simp_all
    have here: "scan_files L root files ([], out) = ([], out @ failures ?here)"
      using unreadable by (rule scan_files_none_readable)
    have "prefix ((out @ failures ?here) @ failures us @ [FoundTask p])
            (snd (scan_dirs L ds ([], out @ failures ?here))) \<and>
          (tx \<noteq> [] \<longrightarrow> scan_dirs L ds ([], out @ failures ?here) =
            (tx, (out @ failures ?here) @ failures us @ [FoundTask p]))"
      using beyond(2) us by (rule Cons.IH)
    then show ?thesis
      using d beyond(1) here by (simp add: failures_append del: dir_candidates.simps)
  qed
qed

lemma concat_map_concat:
  "concat (map g (concat xss)) = concat (map (\<lambda>xs. concat (map g xs)) xss)"
  by (induction xss) simp_all

lemma walk_task_files:
  "concat (map (dir_candidates L) (walk root t)) = task_files L root t"
proof (induction root t rule: walk.induct)
  case (1 root name files dirs)
  let ?kept = "filter (\<lambda>d. dir_name d \<notin> set IGNORE_DIRS) dirs"
  let ?below = "\<lambda>d. walk (path_join root (dir_name d)) d"
  have below: "map (\<lambda>d. concat (map (dir_candidates L) (?below d))) ?kept =
        map (\<lambda>d. task_files L (path_join root (dir_name d)) d) ?kept"
    using "1.IH" by (intro map_cong refl) simp
  have "concat (map (dir_candidates L) (walk root (Tree name files dirs))) =
        dir_candidates L (root, files) @
        concat (map (dir_candidates L) (concat (map ?below ?kept)))"
    by (simp del: dir_candidates.simps)
  also have "concat (map (dir_candidates L) (concat (map ?below ?kept))) =
        concat (map (\<lambda>d. concat (map (dir_candidates L) (?below d))) ?kept)"
    by (simp only: concat_map_concat map_map o_def)
  also have "\<dots> = concat (map (\<lambda>d. task_files L (path_join root (dir_name d)) d) ?kept)"
    by (simp only: below)
  finally show ?case by (simp del: dir_candidates.simps)
qed

lemma load_context_candidates:
  "load_context L t = scan_dirs L (walk ''.'' t) ([], []) \<and>
   concat (map (dir_candidates L) (walk ''.'' t)) = candidates L t"
  by (simp add: load_context_def candidates_def walk_task_files)

text \<open>
  C8, as amended. The loader tries the files whose lower-cased name is one of the four
  task names in the order of the specification: top-down, a directory before its
  subdirectories, in listing order, and nothing in or below a denylisted directory. A read
  that fails is printed and the next matching file is tried; it never ends the run: up to
  and including the first matching file that can be read, the printed lines are one line
  for each failed read and the line for the file found. When no matching file can be read
  (in particular when there is none) the result is the empty text. When the first matching
  file that can be read has a non-empty text, that text is the result and nothing else is
  printed.
\<close>

theorem load_context_first_readable:
  "(list_all (\<lambda>c. \<not> readable c) (candidates L t) \<longrightarrow>
      load_context L t = ([], failures (candidates L t))) \<and>
   (\<forall>fs p tx rest.
      candidates L t = fs @ (p, Content tx) # rest \<and> list_all (\<lambda>c. \<not> readable c) fs \<longrightarrow>
        prefix (failures fs @ [FoundTask p]) (snd (load_context L t)) \<and>
        (tx \<noteq> [] \<longrightarrow> load_context L t = (tx, failures fs @ [FoundTask p])))"
proof (intro conjI allI impI)
  assume "list_all (\<lambda>c. \<not> readable c) (candidates L t)"
  then show "load_context L t = ([], failures (candidates L t))"
    using scan_dirs_none_readable[of L "walk ''.'' t" "[]"]
    by (simp add: load_context_candidates)
next
  fix fs p tx rest
  assume a: "candidates L t = fs @ (p, Content tx) # rest \<and> list_all (\<lambda>c. \<not> readable c) fs"
  then have both: "prefix ([] @ failures fs @ [FoundTask p]) (snd (scan_dirs L (walk ''.'' t) ([], []))) \<and>
      (tx \<noteq> [] \<longrightarrow> scan_dirs L (walk ''.'' t) ([], []) = (tx, [] @ failures fs @ [FoundTask p]))"
    by (intro scan_dirs_first_readable) (simp_all add: load_context_candidates)
  from both show "prefix (failures fs @ [FoundTask p]) (snd (load_context L t))"
    by (simp add: load_context_candidates)
  assume "tx \<noteq> []"
  with both show "load_context L t = (tx, failures fs @ [FoundTask p])"
    by (simp add: load_context_candidates)
qed

theorem load_context_first_readable_witness:
  "list_all (\<lambda>c. \<not> readable c) (candidates example_lib unreadable_only) \<and>
   load_context example_lib unreadable_only = ([], [CouldNotRead ''./Task.MD'' ''UnicodeDecodeError'']) \<and>
   candidates example_lib nested_tree =
     [(''./docs/README.md'', ReadError ''PermissionError'')] @
     (''./docs/task.md'', Content ''Build a form'') # [] \<and>
   list_all (\<lambda>c. \<not> readable c) [(''./docs/README.md'', ReadError ''PermissionError'')] \<and>
   ''Build a form'' \<noteq> [] \<and>
   load_context example_lib nested_tree =
     (''Build a form'',
      [CouldNotRead ''./docs/README.md'' ''PermissionError'', FoundTask ''./docs/task.md'']) \<and>
   candidates example_lib unreadable_then_empty =
     [(''./README.md'', ReadError ''PermissionError'')] @ (''./task.md'', Content []) # [] \<and>
   prefix [CouldNotRead ''./README.md'' ''PermissionError'', FoundTask ''./task.md'']
     (snd (load_context example_lib unreadable_then_empty))"
proof -
  have only: "candidates example_lib unreadable_only = [(''./Task.MD'', ReadError ''UnicodeDecodeError'')]"
    by code_simp
  then have none: "list_all (\<lambda>c. \<not> readable c) (candidates example_lib unreadable_only)"
    by simp
  from load_context_first_readable[of example_lib unreadable_only] none
  have "load_context example_lib unreadable_only = ([], failures (candidates example_lib unreadable_only))"
    by blast
  then have 1: "load_context example_lib unreadable_only =
      ([], [CouldNotRead ''./Task.MD'' ''UnicodeDecodeError''])"
    by (simp add: only)
  have c: "candidates example_lib nested_tree =
     [(''./docs/README.md'', ReadError ''PermissionError'')] @
     (''./docs/task.md'', Content ''Build a form'') # []"
    by code_simp
  have u: "list_all (\<lambda>c. \<not> readable c) [(''./docs/README.md'', ReadError ''PermissionError'')]"
    by simp
  have n: "''Build a form'' \<noteq> []" by simp
  from load_context_first_readable[of example_lib nested_tree] c u n
  have "load_context example_lib nested_tree =
     (''Build a form'', failures [(''./docs/README.md'', ReadError ''PermissionError'')] @
        [FoundTask ''./docs/task.md''])"
    by blast
  then have 2: "load_context example_lib nested_tree =
     (''Build a form'',
      [CouldNotRead ''./docs/README.md'' ''PermissionError'', FoundTask ''./docs/task.md''])"
    by simp
  have e: "candidates example_lib unreadable_then_empty =
     [(''./README.md'', ReadError ''PermissionError'')] @ (''./task.md'', Content []) # []"
    by code_simp
  have v: "list_all (\<lambda>c. \<not> readable c) [(''./README.md'', ReadError ''PermissionError'')]"
    by simp
  from load_context_first_readable[of example_lib unreadable_then_empty] e v
  have "prefix (failures [(''./README.md'', ReadError ''PermissionError'')] @ [FoundTask ''./task.md''])
     (snd (load_context example_lib unreadable_then_empty))"
    by blast
  then have 3: "prefix [CouldNotRead ''./README.md'' ''PermissionError'', FoundTask ''./task.md'']
     (snd (load_context example_lib unreadable_then_empty))"
    by simp
  from none 1 c u n 2 e 3 show ?thesis by blast
qed

text \<open>
  The claim as it is written fails: with an unreadable \<open>README.md\<close> followed by a
  readable \<open>task.md\<close> the loader returns the text of \<open>task.md\<close>, not the empty
  text; with an empty \<open>README.md\<close> it goes on to the next directory and returns the
  text of \<open>docs/task.md\<close>.
\<close>

theorem load_context_counterexample:
  "fst (load_context example_lib unreadable_first) = ''Build a form'' \<and>
   spec_load_context example_lib unreadable_first = [] \<and>
   fst (load_context example_lib empty_first) = ''Build a form'' \<and>
   spec_load_context example_lib empty_first = []"
  by code_simp

subsection \<open>The loop over the commits\<close>

lemma collect_changes_acc:
  "collect_changes files (changed_content, file_count) =
     (changed_content @ concat (map file_section (included_files files)),
      file_count + length (included_files files))"
  by (induction files arbitrary: changed_content file_count)
     (auto simp: included_files_def passes_filter_def has_patch_def split: option.splits)

lemma collect_changes_included:
  "collect_changes files ([], 0) =
     (concat (map file_section (included_files files)), length (included_files files))"
  by (simp add: collect_changes_acc)

lemma review_commit_cases:
  "review_commit L W repo tok ec c st =
     (let st1 = emit [Print (ReviewingCommit (take 7 (sha c)) (message c)),
                      GetCommit repo (sha c) tok] st
      in case get_commit_changes W (calls_so_far is_GetCommit st) repo (sha c) tok of
           Inl e \<Rightarrow> emit [Print (ErrorFetchingChanges e)] st1
         | Inr files \<Rightarrow>
             if included_files files = [] then emit [Print NoRelevantFiles] st1
             else
               (let prompt = build_prompt L ec (concat (map file_section (included_files files)));
                    st2 = emit [Print (Analyzing (length (included_files files))), Generate prompt] st1
                in case generate_content W (calls_so_far is_Generate st) prompt of
                     Inl e \<Rightarrow> emit [Print (GeminiError (take 7 (sha c)) e)] st2
                   | Inr tx \<Rightarrow>
                       st2\<lparr>all_feedback := all_feedback st2 @
                              [format_feedback (take 7 (sha c)) (message c) (str_strip L tx)]\<rparr>))"
  by (simp add: review_commit_def Let_def collect_changes_included split: sum.splits)

lemma review_commit_GetCommit:
  "filter is_GetCommit (trace (review_commit L W repo tok ec c st)) =
     filter is_GetCommit (trace st) @ [GetCommit repo (sha c) tok]"
  by (simp add: review_commit_cases Let_def emit_def split: sum.splits)

lemma review_commit_PostComment:
  "filter is_PostComment (trace (review_commit L W repo tok ec c st)) =
     filter is_PostComment (trace st)"
  by (simp add: review_commit_cases Let_def emit_def split: sum.splits)

lemma review_commit_feedback_cases:
  "all_feedback (review_commit L W repo tok ec c st) = all_feedback st \<or>
   (\<exists>tx. all_feedback (review_commit L W repo tok ec c st) =
      all_feedback st @ [format_feedback (take 7 (sha c)) (message c) tx])"
  by (auto simp: review_commit_cases Let_def emit_def split: sum.splits)

lemma review_commit_feedback:
  "\<exists>ts. length ts \<le> 1 \<and>
     all_feedback (review_commit L W repo tok ec c st) =
       all_feedback st @ map (format_feedback (take 7 (sha c)) (message c)) ts"
  using review_commit_feedback_cases[of L W repo tok ec c st]
proof
  assume "all_feedback (review_commit L W repo tok ec c st) = all_feedback st"
  then show ?thesis by (intro exI[of _ "[]"]) simp
next
  assume "\<exists>tx. all_feedback (review_commit L W repo tok ec c st) =
      all_feedback st @ [format_feedback (take 7 (sha c)) (message c) tx]"
  then obtain tx where "all_feedback (review_commit L W repo tok ec c st) =
      all_feedback st @ [format_feedback (take 7 (sha c)) (message c) tx]" ..
  then show ?thesis by (intro exI[of _ "[tx]"]) simp
qed

lemma review_commits_GetCommit:
  "filter is_GetCommit (trace (review_commits L W repo tok ec commits st)) =
     filter is_GetCommit (trace st) @ map (\<lambda>c. GetCommit repo (sha c) tok) commits"
  by (induction commits arbitrary: st) (simp_all add: review_commit_GetCommit)

lemma review_commits_PostComment:
  "filter is_PostComment (trace (review_commits L W repo tok ec commits st)) =
     filter is_PostComment (trace st)"
  by (induction commits arbitrary: st) (simp_all add: review_commit_PostComment)

lemma review_commits_feedback:
  "\<exists>cs ts. subseq cs commits \<and> length ts = length cs \<and>
     all_feedback (review_commits L W repo tok ec commits st) =
       all_feedback st @ map2 entry cs ts"
proof (induction commits arbitrary: st)
  case Nil
  show ?case by (intro exI[of _ "[]"]) simp
next
  case (Cons c commits)
  let ?st' = "review_commit L W repo tok ec c st"
  obtain ts0 where ts0: "length ts0 \<le> 1"
    "all_feedback ?st' = all_feedback st @ map (entry c) ts0"
    using review_commit_feedback[of L W repo tok ec c st] unfolding entry_def by blast
  obtain cs ts where IH: "subseq cs commits" "length ts = length cs"
    "all_feedback (review_commits L W repo tok ec commits ?st') = all_feedback ?st' @ map2 entry cs ts"
    using Cons.IH[of ?st'] by blast
  show ?case
  proof (cases ts0)
    case Nil
    with ts0 IH show ?thesis
      by (intro exI[of _ cs] exI[of _ ts]) (simp add: list_emb_Cons)
  next
    case (Cons t0 rest)
    with ts0 have "ts0 = [t0]" by simp
    with ts0 IH show ?thesis
      by (intro exI[of _ "c # cs"] exI[of _ "t0 # ts"]) simp
  qed
qed

lemma events_publish_GetCommit:
  "filter is_GetCommit (events (publish L W repo pr tok st)) = filter is_GetCommit (trace st)"
  by (simp add: publish_def post_comment_def Let_def split: sum.splits)

lemma feedback_publish: "feedback (publish L W repo pr tok st) = all_feedback st"
  by (simp add: publish_def post_comment_def Let_def split: sum.splits)

lemma main_reaches_loop:
  assumes "GEMINI_API_KEY E = Some key" "key \<noteq> []" "GITHUB_TOKEN E = Some tok" "tok \<noteq> []"
    and "GITHUB_EVENT_PATH E = Some path" "event_file E path = Parsed (JObject items)"
    and "map_of items ''pull_request'' = Some (JObject pull)" "map_of pull ''number'' = Some pr"
    and "get_pr_commits W (GITHUB_REPOSITORY E) pr tok = Inr commits"
  shows "main L E W =
     publish L W (GITHUB_REPOSITORY E) pr tok
       (review_commits L W (GITHUB_REPOSITORY E) tok (fst (load_context L (worktree E))) commits
          (loop_entry (snd (load_context L (worktree E))) (GITHUB_REPOSITORY E) pr tok (length commits)))"
  using assms by (simp add: main_def Let_def loop_entry_def split: prod.splits)

lemma review_commit_Generate:
  assumes "get_commit_changes W (calls_so_far is_GetCommit st) repo (sha c) tok = Inr files"
  shows "filter is_Generate (trace (review_commit L W repo tok ec c st)) =
           filter is_Generate (trace st) @
           (if included_files files = [] then []
            else [Generate (build_prompt L ec (concat (map file_section (included_files files))))])"
  using assms by (simp add: review_commit_cases Let_def emit_def split: sum.splits)

lemma sublist_concat_map: "x \<in> set xs \<Longrightarrow> sublist (f x) (concat (map f xs))"
proof -
  assume "x \<in> set xs"
  then obtain ys zs where "xs = ys @ x # zs"
    by (meson split_list)
  then have "concat (map f xs) = concat (map f ys) @ f x @ concat (map f zs)"
    by simp
  then show ?thesis
    by (simp only: sublist_appendI)
qed

text \<open>
  C2. For a commit whose detail call succeeds, the files put into the prompt are exactly
  the returned files that pass the file filter and have a patch text that is neither absent
  nor empty, in the order of the response. \<open>collect_changes\<close> gives, for exactly these
  files, the header line with the file name, the status line and the patch text, and their
  number. When there is at least one such file, one prompt is sent to the model: the
  template with the task description (or the fallback sentence), these file sections and
  the resource list at its three places, so the section of every such file is a part of the
  prompt. When there is none, no prompt is sent. A file without patch text is not among
  them, whatever its extension.
\<close>

theorem prompt_files_exactly_filtered:
  assumes "get_commit_changes W (calls_so_far is_GetCommit st) repo (sha c) tok = Inr files"
    and "inc = filter (\<lambda>f. \<not> should_ignore_file (filename f) \<and> patch f \<noteq> None \<and> patch f \<noteq> Some []) files"
    and "section = (\<lambda>f. [CHR 0x0A] @ ''--- FILE: '' @ filename f @ '' ---'' @ [CHR 0x0A] @
                          ''Status: '' @ status f @ [CHR 0x0A] @
                          ''Changes:'' @ [CHR 0x0A] @ the (patch f) @ [CHR 0x0A])"
    and "prompt = prompt_role L @ (if ec \<noteq> [] then ec else prompt_no_task L) @
                  prompt_changes L @ concat (map section inc) @
                  prompt_tasks L @ LEARNING_RESOURCES L @ prompt_example L"
  shows "collect_changes files ([], 0) = (concat (map section inc), length inc) \<and>
         filter is_Generate (trace (review_commit L W repo tok ec c st)) =
           filter is_Generate (trace st) @ (if inc = [] then [] else [Generate prompt]) \<and>
         (\<forall>f \<in> set inc. sublist (section f) prompt)"
proof (intro conjI ballI)
  have inc: "inc = included_files files"
    unfolding assms(2) included_files_def passes_filter_def has_patch_def
    by (induction files) auto
  have "section f = file_section f" if "f \<in> set inc" for f
  proof -
    from that obtain p where "patch f = Some p"
      unfolding assms(2) by auto
    then show ?thesis
      by (simp add: assms(3) file_section_def NL_def)
  qed
  then have sections: "map section inc = map file_section inc"
    by (intro map_cong refl)
  have csec: "concat (map section inc) = concat (map file_section (included_files files))"
  proof -
    have "concat (map section inc) = concat (map file_section inc)"
      by (simp only: sections)
    then show ?thesis by (simp only: inc)
  qed
  have prompt: "prompt = build_prompt L ec (concat (map file_section (included_files files)))"
    by (simp only: assms(4) build_prompt_def csec)
  have len: "length inc = length (included_files files)"
    by (simp only: inc)
  show "collect_changes files ([], 0) = (concat (map section inc), length inc)"
    by (simp only: collect_changes_included csec len)
  show "filter is_Generate (trace (review_commit L W repo tok ec c st)) =
      filter is_Generate (trace st) @ (if inc = [] then [] else [Generate prompt])"
    unfolding prompt inc by (rule review_commit_Generate[OF assms(1)])
  fix f
  assume "f \<in> set inc"
  then have "sublist (section f) (concat (map section inc))"
    by (rule sublist_concat_map)
  then obtain a b where "concat (map section inc) = a @ section f @ b"
    by (auto simp: sublist_def)
  then have "prompt =
      (prompt_role L @ (if ec \<noteq> [] then ec else prompt_no_task L) @ prompt_changes L @ a) @
      section f @ (b @ prompt_tasks L @ LEARNING_RESOURCES L @ prompt_example L)"
    by (simp add: assms(4))
  then show "sublist (section f) prompt"
    by (simp only: sublist_appendI)
qed

lemma example_changes:
  "get_commit_changes example_world (calls_so_far is_GetCommit start) (Some ''owner/repo'')
     (sha add_form) ''token'' = Inr [index_html, notes_md]"
  by (simp add: example_world_def calls_so_far_def start_def)

lemma example_included: "included_files [index_html, notes_md] = [index_html]"
  by code_simp

lemma example_filter:
  "filter (\<lambda>f. \<not> should_ignore_file (filename f) \<and> patch f \<noteq> None \<and> patch f \<noteq> Some [])
     [index_html, notes_md] = [index_html]"
  by code_simp

theorem prompt_files_exactly_filtered_witness:
  "get_commit_changes example_world (calls_so_far is_GetCommit start) (Some ''owner/repo'')
     (sha add_form) ''token'' = Inr [index_html, notes_md] \<and>
   [index_html] =
     filter (\<lambda>f. \<not> should_ignore_file (filename f) \<and> patch f \<noteq> None \<and> patch f \<noteq> Some [])
       [index_html, notes_md] \<and>
   collect_changes [index_html, notes_md] ([], 0) =
     ([CHR 0x0A] @ ''--- FILE: index.html ---'' @ [CHR 0x0A] @ ''Status: modified'' @ [CHR 0x0A] @
      ''Changes:'' @ [CHR 0x0A] @ ''+<label>Name</label>'' @ [CHR 0x0A], 1) \<and>
   filter is_Generate (trace (review_commit example_lib example_world (Some ''owner/repo'') ''token''
       ''Build a form'' add_form start)) =
     [Generate (''ROLE Build a form CHANGES '' @
        [CHR 0x0A] @ ''--- FILE: index.html ---'' @ [CHR 0x0A] @ ''Status: modified'' @ [CHR 0x0A] @
        ''Changes:'' @ [CHR 0x0A] @ ''+<label>Name</label>'' @ [CHR 0x0A] @
        '' TASKS RESOURCES EXAMPLE'')]"
proof -
  have f: "[index_html] =
     filter (\<lambda>f. \<not> should_ignore_file (filename f) \<and> patch f \<noteq> None \<and> patch f \<noteq> Some [])
       [index_html, notes_md]"
    by (simp only: example_filter)
  have g: "filter is_Generate (trace start) = []"
    by (simp add: start_def)
  from prompt_files_exactly_filtered[OF example_changes f refl refl, of example_lib "''Build a form''"]
  have "collect_changes [index_html, notes_md] ([], 0) =
      (concat (map (\<lambda>f. [CHR 0x0A] @ ''--- FILE: '' @ filename f @ '' ---'' @ [CHR 0x0A] @
                          ''Status: '' @ status f @ [CHR 0x0A] @
                          ''Changes:'' @ [CHR 0x0A] @ the (patch f) @ [CHR 0x0A]) [index_html]), length [index_html])"
    and "filter is_Generate (trace (review_commit example_lib example_world (Some ''owner/repo'') ''token''
       ''Build a form'' add_form start)) =
      filter is_Generate (trace start) @
      [Generate (prompt_role example_lib @ ''Build a form'' @ prompt_changes example_lib @
         concat (map (\<lambda>f. [CHR 0x0A] @ ''--- FILE: '' @ filename f @ '' ---'' @ [CHR 0x0A] @
                          ''Status: '' @ status f @ [CHR 0x0A] @
                          ''Changes:'' @ [CHR 0x0A] @ the (patch f) @ [CHR 0x0A]) [index_html]) @
         prompt_tasks example_lib @ LEARNING_RESOURCES example_lib @ prompt_example example_lib)]"
    by simp_all
  then show ?thesis
    using example_changes f g by (simp add: index_html_def example_lib_def)
qed

text \<open>
  C3. When the run reaches the loop with a commit list of length N, it makes exactly N
  commit-detail calls, one for each commit in the order of the list, and the feedback list
  has at most N entries, which belong to a subsequence of the commits in the same order.
\<close>

theorem one_detail_call_per_commit:
  assumes "GEMINI_API_KEY E = Some key" "key \<noteq> []" "GITHUB_TOKEN E = Some tok" "tok \<noteq> []"
    and "GITHUB_EVENT_PATH E = Some path" "event_file E path = Parsed (JObject items)"
    and "map_of items ''pull_request'' = Some (JObject pull)" "map_of pull ''number'' = Some pr"
    and "get_pr_commits W (GITHUB_REPOSITORY E) pr tok = Inr commits"
  shows "filter is_GetCommit (events (main L E W)) =
           map (\<lambda>c. GetCommit (GITHUB_REPOSITORY E) (sha c) tok) commits \<and>
         length (feedback (main L E W)) \<le> length commits \<and>
         (\<exists>cs ts. subseq cs commits \<and> length ts = length cs \<and>
            feedback (main L E W) = map2 entry cs ts)"
proof -
  let ?init = "loop_entry (snd (load_context L (worktree E))) (GITHUB_REPOSITORY E) pr tok (length commits)"
  let ?final = "review_commits L W (GITHUB_REPOSITORY E) tok (fst (load_context L (worktree E))) commits ?init"
  have m: "main L E W = publish L W (GITHUB_REPOSITORY E) pr tok ?final"
    using assms by (rule main_reaches_loop)
  have "filter is_GetCommit (trace ?init) = []"
    by (simp add: loop_entry_def filter_empty_conv)
  then have calls: "filter is_GetCommit (events (main L E W)) =
      map (\<lambda>c. GetCommit (GITHUB_REPOSITORY E) (sha c) tok) commits"
    by (simp only: m events_publish_GetCommit review_commits_GetCommit append_Nil)
  obtain cs ts where sel: "subseq cs commits" "length ts = length cs"
    "all_feedback ?final = all_feedback ?init @ map2 entry cs ts"
    using review_commits_feedback[of commits L W "GITHUB_REPOSITORY E" tok
        "fst (load_context L (worktree E))" ?init] by blast
  then have fb: "feedback (main L E W) = map2 entry cs ts"
    by (simp add: m feedback_publish loop_entry_def)
  have "length cs \<le> length commits"
    using sel(1) by (rule list_emb_length)
  then have "length (feedback (main L E W)) \<le> length commits"
    using sel(2) by (simp add: fb)
  with calls sel fb show ?thesis by blast
qed

lemma example_main:
  "events (main example_lib example_env example_world) =
     [Print (CouldNotRead ''./README.md'' ''PermissionError''), Print (FoundTask ''./task.md''),
      Print FetchingCommits, ListCommits (Some ''owner/repo'') (JInt 7) ''token'', Print (FoundCommits 2),
      Print (ReviewingCommit ''abc1234'' ''add form''),
      GetCommit (Some ''owner/repo'') ''abc1234def5678'' ''token'',
      Print (Analyzing 1),
      Generate (build_prompt example_lib ''Build a form'' (file_section index_html)),
      Print (ReviewingCommit ''0123456'' ''add bundle''),
      GetCommit (Some ''owner/repo'') ''0123456789abcd'' ''token'',
      Print NoRelevantFiles,
      PostComment (Some ''owner/repo'') (JInt 7) ''token''
        (''HEADING HEADER '' @ entry add_form ''Well done'' @ '' FOOTER''),
      Print CommentPosted]"
  by code_simp

theorem one_detail_call_per_commit_witness:
  "GEMINI_API_KEY example_env = Some ''key'' \<and> ''key'' \<noteq> [] \<and>
   GITHUB_TOKEN example_env = Some ''token'' \<and> ''token'' \<noteq> [] \<and>
   GITHUB_EVENT_PATH example_env = Some ''event.json'' \<and>
   event_file example_env ''event.json'' = Parsed (JObject event_items) \<and>
   map_of event_items ''pull_request'' = Some (JObject pull_request_items) \<and>
   map_of pull_request_items ''number'' = Some (JInt 7) \<and>
   get_pr_commits example_world (GITHUB_REPOSITORY example_env) (JInt 7) ''token'' = Inr [add_form, add_bundle] \<and>
   filter is_GetCommit (events (main example_lib example_env example_world)) =
     [GetCommit (Some ''owner/repo'') (sha add_form) ''token'',
      GetCommit (Some ''owner/repo'') (sha add_bundle) ''token''] \<and>
   length (feedback (main example_lib example_env example_world)) \<le> 2"
proof -
  have a: "GEMINI_API_KEY example_env = Some ''key''" "''key'' \<noteq> []"
    "GITHUB_TOKEN example_env = Some ''token''" "''token'' \<noteq> []"
    "GITHUB_EVENT_PATH example_env = Some ''event.json''"
    "event_file example_env ''event.json'' = Parsed (JObject event_items)"
    "map_of event_items ''pull_request'' = Some (JObject pull_request_items)"
    "map_of pull_request_items ''number'' = Some (JInt 7)"
    "get_pr_commits example_world (GITHUB_REPOSITORY example_env) (JInt 7) ''token'' = Inr [add_form, add_bundle]"
    by (simp_all add: example_env_def example_world_def event_items_def pull_request_items_def)
  from one_detail_call_per_commit[OF a, of example_lib] a show ?thesis
    by (simp add: example_env_def)
qed

text \<open>
  C4. A commit of which no changed file passes the file filter causes no call of the model
  and no feedback entry; the loop prints that it skips the commit and goes on with the next
  one.
\<close>

theorem filtered_out_commit_skipped:
  assumes "get_commit_changes W (calls_so_far is_GetCommit st) repo (sha c) tok = Inr files"
    and "filter (\<lambda>f. \<not> should_ignore_file (filename f)) files = []"
  shows "review_commit L W repo tok ec c st =
           emit [Print (ReviewingCommit (take 7 (sha c)) (message c)),
                 GetCommit repo (sha c) tok, Print NoRelevantFiles] st \<and>
         filter is_Generate (trace (review_commit L W repo tok ec c st)) =
           filter is_Generate (trace st) \<and>
         all_feedback (review_commit L W repo tok ec c st) = all_feedback st \<and>
         review_commits L W repo tok ec (c # commits) st =
           review_commits L W repo tok ec commits
             (emit [Print (ReviewingCommit (take 7 (sha c)) (message c)),
                    GetCommit repo (sha c) tok, Print NoRelevantFiles] st)"
proof -
  from assms(2) have "included_files files = []"
    by (simp add: included_files_def passes_filter_def filter_empty_conv)
  with assms(1) have step: "review_commit L W repo tok ec c st =
      emit [Print (ReviewingCommit (take 7 (sha c)) (message c)),
            GetCommit repo (sha c) tok, Print NoRelevantFiles] st"
    by (simp add: review_commit_cases Let_def emit_def)
  then show ?thesis by (simp add: emit_def)
qed

lemma bundle_changes:
  "get_commit_changes example_world
     (calls_so_far is_GetCommit (start\<lparr>trace := [GetCommit (Some ''owner/repo'') (sha add_form) ''token'']\<rparr>))
     (Some ''owner/repo'') (sha add_bundle) ''token'' = Inr [bundle_js]"
  by (simp add: example_world_def calls_so_far_def start_def)

lemma bundle_filtered: "filter (\<lambda>f. \<not> should_ignore_file (filename f)) [bundle_js] = []"
  by code_simp

theorem filtered_out_commit_skipped_witness:
  "get_commit_changes example_world
     (calls_so_far is_GetCommit (start\<lparr>trace := [GetCommit (Some ''owner/repo'') (sha add_form) ''token'']\<rparr>))
     (Some ''owner/repo'') (sha add_bundle) ''token'' = Inr [bundle_js] \<and>
   filter (\<lambda>f. \<not> should_ignore_file (filename f)) [bundle_js] = [] \<and>
   filter is_Generate (trace (review_commit example_lib example_world (Some ''owner/repo'') ''token''
      ''Build a form'' add_bundle
      (start\<lparr>trace := [GetCommit (Some ''owner/repo'') (sha add_form) ''token'']\<rparr>))) = []"
  using filtered_out_commit_skipped[OF bundle_changes bundle_filtered, of example_lib "''Build a form''"]
    bundle_changes bundle_filtered
  by (simp add: start_def emit_def)

lemma failed_generation_step:
  assumes "get_commit_changes W (calls_so_far is_GetCommit st) repo (sha c) tok = Inr files"
    and "included_files files \<noteq> []"
    and "generate_content W (calls_so_far is_Generate st)
           (build_prompt L ec (concat (map file_section (included_files files)))) = Inl e"
  shows "review_commit L W repo tok ec c st =
           emit [Print (ReviewingCommit (take 7 (sha c)) (message c)),
                 GetCommit repo (sha c) tok,
                 Print (Analyzing (length (included_files files))),
                 Generate (build_prompt L ec (concat (map file_section (included_files files)))),
                 Print (GeminiError (take 7 (sha c)) e)] st"
  using assms by (simp add: review_commit_cases Let_def emit_def)

lemma review_commits_append:
  "review_commits L W repo tok ec (xs @ ys) st =
     review_commits L W repo tok ec ys (review_commits L W repo tok ec xs st)"
  by (induction xs arbitrary: st) simp_all

lemma review_commit_extends: "prefix (trace st) (trace (review_commit L W repo tok ec c st))"
  by (simp add: review_commit_cases Let_def emit_def split: sum.splits)

lemma review_commits_extends:
  "prefix (trace st) (trace (review_commits L W repo tok ec commits st))"
proof (induction commits arbitrary: st)
  case Nil
  show ?case by simp
next
  case (Cons c commits)
  have "prefix (trace st) (trace (review_commit L W repo tok ec c st))"
    by (rule review_commit_extends)
  also have "prefix \<dots> (trace (review_commits L W repo tok ec commits
      (review_commit L W repo tok ec c st)))"
    by (rule Cons.IH)
  finally show ?case by simp
qed

lemma publish_extends: "prefix (trace st) (events (publish L W repo pr tok st))"
  by (simp add: publish_def post_comment_def Let_def split: sum.splits)

lemma join_Cons: "join sep (x # xs) = x @ concat (map (\<lambda>y. sep @ y) xs)"
  by (induction xs arbitrary: x) simp_all

lemma publish_PostComment:
  assumes "filter is_PostComment (trace st) = []"
  shows "filter is_PostComment (events (publish L W repo pr tok st)) =
     (case all_feedback st of
        [] \<Rightarrow> []
      | x # xs \<Rightarrow>
          [PostComment repo pr tok
             (comment_heading L @ review_header L @ x @
              concat (map (\<lambda>y. [CHR 0x0A, CHR 0x0A] @ ''---'' @ [CHR 0x0A, CHR 0x0A] @ y) xs) @
              review_footer L)])"
  using assms
  by (cases "all_feedback st")
     (simp_all add: publish_def post_comment_def Let_def join_Cons NL_def split: sum.splits)

lemma loop_entry_no_PostComment:
  "filter is_PostComment (trace (loop_entry out repo pr tok n)) = []"
  by (simp add: loop_entry_def filter_empty_conv)

text \<open>
  C5. Let the run reach the loop with the commits \<open>before @ c # after\<close>, and let the
  call of the model for \<open>c\<close> raise. Then the failure is printed, the detail calls go on
  for the commits after \<open>c\<close>, and the feedback list at the end of the run consists of
  entries of commits before \<open>c\<close> followed by entries of commits after \<open>c\<close>, each a
  subsequence in the order of the list: no entry is appended for \<open>c\<close>. The comment
  that is posted, if any, is made of exactly these entries between the header and the
  footer, so no entry for \<open>c\<close> is in its body.
\<close>

theorem failed_generation_skips_commit:
  assumes "GEMINI_API_KEY E = Some key" "key \<noteq> []" "GITHUB_TOKEN E = Some tok" "tok \<noteq> []"
    and "GITHUB_EVENT_PATH E = Some path" "event_file E path = Parsed (JObject items)"
    and "map_of items ''pull_request'' = Some (JObject pull)" "map_of pull ''number'' = Some pr"
    and "get_pr_commits W (GITHUB_REPOSITORY E) pr tok = Inr (before @ c # after)"
    and "st = review_commits L W (GITHUB_REPOSITORY E) tok (fst (load_context L (worktree E))) before
                (loop_entry (snd (load_context L (worktree E))) (GITHUB_REPOSITORY E) pr tok
                   (length (before @ c # after)))"
    and "get_commit_changes W (calls_so_far is_GetCommit st) (GITHUB_REPOSITORY E) (sha c) tok = Inr files"
    and "included_files files \<noteq> []"
    and "generate_content W (calls_so_far is_Generate st)
           (build_prompt L (fst (load_context L (worktree E)))
              (concat (map file_section (included_files files)))) = Inl e"
    and "fmt = (\<lambda>c t. ''**[`'' @ take 7 (sha c) @ ''`]** '' @ message c @ [CHR 0x0A, CHR 0x0A] @ t)"
  shows "Print (GeminiError (take 7 (sha c)) e) \<in> set (events (main L E W)) \<and>
         filter is_GetCommit (events (main L E W)) =
           map (\<lambda>c. GetCommit (GITHUB_REPOSITORY E) (sha c) tok) (before @ c # after) \<and>
         (\<exists>cs1 ts1 cs2 ts2.
            subseq cs1 before \<and> length ts1 = length cs1 \<and>
            subseq cs2 after \<and> length ts2 = length cs2 \<and>
            feedback (main L E W) = map2 fmt cs1 ts1 @ map2 fmt cs2 ts2) \<and>
         filter is_PostComment (events (main L E W)) =
           (case feedback (main L E W) of
              [] \<Rightarrow> []
            | x # xs \<Rightarrow>
                [PostComment (GITHUB_REPOSITORY E) pr tok
                   (comment_heading L @ review_header L @ x @
                    concat (map (\<lambda>y. [CHR 0x0A, CHR 0x0A] @ ''---'' @ [CHR 0x0A, CHR 0x0A] @ y) xs) @
                    review_footer L)])"
proof -
  let ?repo = "GITHUB_REPOSITORY E"
  let ?ec = "fst (load_context L (worktree E))"
  let ?init = "loop_entry (snd (load_context L (worktree E))) ?repo pr tok (length (before @ c # after))"
  let ?failed = "review_commit L W ?repo tok ?ec c st"
  let ?final = "review_commits L W ?repo tok ?ec after ?failed"
  have fmt: "fmt = entry"
    by (simp add: assms(14) entry_def format_feedback_def NL_def fun_eq_iff)
  have m: "main L E W = publish L W ?repo pr tok
      (review_commits L W ?repo tok ?ec (before @ c # after) ?init)"
    using assms(1-9) by (rule main_reaches_loop)
  have final: "review_commits L W ?repo tok ?ec (before @ c # after) ?init = ?final"
    by (simp add: review_commits_append assms(10))
  have step: "?failed =
      emit [Print (ReviewingCommit (take 7 (sha c)) (message c)),
            GetCommit ?repo (sha c) tok,
            Print (Analyzing (length (included_files files))),
            Generate (build_prompt L ?ec (concat (map file_section (included_files files)))),
            Print (GeminiError (take 7 (sha c)) e)] st"
    using assms(11-13) by (rule failed_generation_step)
  have printed: "Print (GeminiError (take 7 (sha c)) e) \<in> set (trace ?failed)"
    by (simp add: step emit_def)
  have "prefix (trace ?failed) (trace ?final)"
    by (rule review_commits_extends)
  also have "prefix \<dots> (events (publish L W ?repo pr tok ?final))"
    by (rule publish_extends)
  finally have "set (trace ?failed) \<subseteq> set (events (main L E W))"
    by (simp only: m final set_mono_prefix)
  with printed have 1: "Print (GeminiError (take 7 (sha c)) e) \<in> set (events (main L E W))"
    by blast
  have "filter is_GetCommit (trace ?init) = []"
    by (simp add: loop_entry_def filter_empty_conv)
  then have 2: "filter is_GetCommit (events (main L E W)) =
      map (\<lambda>c. GetCommit ?repo (sha c) tok) (before @ c # after)"
    by (simp only: m events_publish_GetCommit review_commits_GetCommit append_Nil)
  obtain cs1 ts1 where b: "subseq cs1 before" "length ts1 = length cs1"
    "all_feedback st = all_feedback ?init @ map2 entry cs1 ts1"
    using review_commits_feedback[of before L W ?repo tok ?ec ?init] assms(10) by blast
  have same: "all_feedback ?failed = all_feedback st"
    by (simp add: step emit_def)
  obtain cs2 ts2 where a: "subseq cs2 after" "length ts2 = length cs2"
    "all_feedback ?final = all_feedback ?failed @ map2 entry cs2 ts2"
    using review_commits_feedback[of after L W ?repo tok ?ec ?failed] by blast
  have fb: "feedback (main L E W) = all_feedback ?final"
    by (simp only: m final feedback_publish)
  have "all_feedback ?init = []"
    by (simp add: loop_entry_def)
  then have "feedback (main L E W) = map2 fmt cs1 ts1 @ map2 fmt cs2 ts2"
    by (simp only: fb a(3) same b(3) fmt append_Nil)
  with b(1,2) a(1,2) have 3: "\<exists>cs1 ts1 cs2 ts2.
      subseq cs1 before \<and> length ts1 = length cs1 \<and>
      subseq cs2 after \<and> length ts2 = length cs2 \<and>
      feedback (main L E W) = map2 fmt cs1 ts1 @ map2 fmt cs2 ts2"
    by blast
  have "filter is_PostComment (trace ?final) = []"
    unfolding final[symmetric]
    by (simp only: review_commits_PostComment loop_entry_no_PostComment)
  then have "filter is_PostComment (events (publish L W ?repo pr tok ?final)) =
      (case all_feedback ?final of
        [] \<Rightarrow> []
      | x # xs \<Rightarrow>
          [PostComment ?repo pr tok
             (comment_heading L @ review_header L @ x @
              concat (map (\<lambda>y. [CHR 0x0A, CHR 0x0A] @ ''---'' @ [CHR 0x0A, CHR 0x0A] @ y) xs) @
              review_footer L)])"
    by (rule publish_PostComment)
  then have 4: "filter is_PostComment (events (main L E W)) =
      (case feedback (main L E W) of
         [] \<Rightarrow> []
       | x # xs \<Rightarrow>
           [PostComment ?repo pr tok
              (comment_heading L @ review_header L @ x @
               concat (map (\<lambda>y. [CHR 0x0A, CHR 0x0A] @ ''---'' @ [CHR 0x0A, CHR 0x0A] @ y) xs) @
               review_footer L)])"
    by (simp only: m final feedback_publish)
  from 1 2 3 4 show ?thesis by blast
qed

lemma first_call_fails_main:
  "events (main example_lib example_env first_call_fails_world) =
     [Print (CouldNotRead ''./README.md'' ''PermissionError''), Print (FoundTask ''./task.md''),
      Print FetchingCommits, ListCommits (Some ''owner/repo'') (JInt 7) ''token'',
      Print (FoundCommits 2),
      Print (ReviewingCommit ''abc1234'' ''add form''),
      GetCommit (Some ''owner/repo'') ''abc1234def5678'' ''token'',
      Print (Analyzing 1),
      Generate (build_prompt example_lib ''Build a form'' (file_section index_html)),
      Print (GeminiError ''abc1234'' ''ResourceExhausted''),
      Print (ReviewingCommit ''0123456'' ''add bundle''),
      GetCommit (Some ''owner/repo'') ''0123456789abcd'' ''token'',
      Print (Analyzing 1),
      Generate (build_prompt example_lib ''Build a form'' (file_section index_html)),
      PostComment (Some ''owner/repo'') (JInt 7) ''token''
        (''HEADING HEADER **[`0123456`]** add bundle'' @ [CHR 0x0A, CHR 0x0A] @ ''Well done FOOTER''),
      Print CommentPosted]"
  by code_simp

theorem failed_generation_skips_commit_witness:
  "GEMINI_API_KEY example_env = Some ''key'' \<and> ''key'' \<noteq> [] \<and>
   GITHUB_TOKEN example_env = Some ''token'' \<and> ''token'' \<noteq> [] \<and>
   GITHUB_EVENT_PATH example_env = Some ''event.json'' \<and>
   event_file example_env ''event.json'' = Parsed (JObject event_items) \<and>
   map_of event_items ''pull_request'' = Some (JObject pull_request_items) \<and>
   map_of pull_request_items ''number'' = Some (JInt 7) \<and>
   get_pr_commits first_call_fails_world (GITHUB_REPOSITORY example_env) (JInt 7) ''token'' =
     Inr ([] @ add_form # [add_bundle]) \<and>
   get_commit_changes first_call_fails_world
     (calls_so_far is_GetCommit
        (loop_entry (snd (load_context example_lib (worktree example_env)))
           (GITHUB_REPOSITORY example_env) (JInt 7) ''token'' 2))
     (GITHUB_REPOSITORY example_env) (sha add_form) ''token'' = Inr [index_html] \<and>
   included_files [index_html] \<noteq> [] \<and>
   generate_content first_call_fails_world
     (calls_so_far is_Generate
        (loop_entry (snd (load_context example_lib (worktree example_env)))
           (GITHUB_REPOSITORY example_env) (JInt 7) ''token'' 2))
     (build_prompt example_lib (fst (load_context example_lib (worktree example_env)))
        (concat (map file_section (included_files [index_html])))) = Inl ''ResourceExhausted'' \<and>
   Print (GeminiError (take 7 (sha add_form)) ''ResourceExhausted'') \<in>
     set (events (main example_lib example_env first_call_fails_world)) \<and>
   filter is_GetCommit (events (main example_lib example_env first_call_fails_world)) =
     [GetCommit (Some ''owner/repo'') (sha add_form) ''token'',
      GetCommit (Some ''owner/repo'') (sha add_bundle) ''token''] \<and>
   filter is_PostComment (events (main example_lib example_env first_call_fails_world)) =
     [PostComment (Some ''owner/repo'') (JInt 7) ''token''
        (''HEADING HEADER **[`0123456`]** add bundle'' @ [CHR 0x0A, CHR 0x0A] @ ''Well done FOOTER'')]"
proof -
  let ?init = "loop_entry (snd (load_context example_lib (worktree example_env)))
           (GITHUB_REPOSITORY example_env) (JInt 7) ''token'' 2"
  have a: "GEMINI_API_KEY example_env = Some ''key''" "''key'' \<noteq> []"
    "GITHUB_TOKEN example_env = Some ''token''" "''token'' \<noteq> []"
    "GITHUB_EVENT_PATH example_env = Some ''event.json''"
    "event_file example_env ''event.json'' = Parsed (JObject event_items)"
    "map_of event_items ''pull_request'' = Some (JObject pull_request_items)"
    "map_of pull_request_items ''number'' = Some (JInt 7)"
    "get_pr_commits first_call_fails_world (GITHUB_REPOSITORY example_env) (JInt 7) ''token'' =
       Inr ([] @ add_form # [add_bundle])"
    by (simp_all add: example_env_def example_world_def first_call_fails_world_def event_items_def
        pull_request_items_def)
  have s: "?init = review_commits example_lib first_call_fails_world (GITHUB_REPOSITORY example_env)
      ''token'' (fst (load_context example_lib (worktree example_env))) []
      (loop_entry (snd (load_context example_lib (worktree example_env)))
         (GITHUB_REPOSITORY example_env) (JInt 7) ''token'' (length ([] @ add_form # [add_bundle])))"
    by (simp add: numeral_2_eq_2)
  have b: "get_commit_changes first_call_fails_world (calls_so_far is_GetCommit ?init)
      (GITHUB_REPOSITORY example_env) (sha add_form) ''token'' = Inr [index_html]"
    by (simp add: first_call_fails_world_def)
  have c: "included_files [index_html] \<noteq> []"
    by code_simp
  have "calls_so_far is_Generate ?init = 0"
    by (simp add: calls_so_far_def loop_entry_def filter_empty_conv)
  then have d: "generate_content first_call_fails_world (calls_so_far is_Generate ?init)
      (build_prompt example_lib (fst (load_context example_lib (worktree example_env)))
        (concat (map file_section (included_files [index_html])))) = Inl ''ResourceExhausted''"
    by (simp add: first_call_fails_world_def)
  have p: "filter is_PostComment (events (main example_lib example_env first_call_fails_world)) =
     [PostComment (Some ''owner/repo'') (JInt 7) ''token''
        (''HEADING HEADER **[`0123456`]** add bundle'' @ [CHR 0x0A, CHR 0x0A] @ ''Well done FOOTER'')]"
    by (simp add: first_call_fails_main)
  have r: "GITHUB_REPOSITORY example_env = Some ''owner/repo''"
    by (simp add: example_env_def)
  from failed_generation_skips_commit[OF a s b c d refl]
  have "Print (GeminiError (take 7 (sha add_form)) ''ResourceExhausted'') \<in>
      set (events (main example_lib example_env first_call_fails_world))"
    and "filter is_GetCommit (events (main example_lib example_env first_call_fails_world)) =
      [GetCommit (Some ''owner/repo'') (sha add_form) ''token'',
       GetCommit (Some ''owner/repo'') (sha add_bundle) ''token'']"
    by (simp_all add: r)
  with a b c d p show ?thesis by blast
qed

subsection \<open>The end of the run and the fatal paths\<close>

text \<open>
  C6. When the feedback list is empty after the loop, no comment is posted: the run prints
  a warning as its last line and returns normally.
\<close>

theorem no_feedback_no_comment:
  assumes "GEMINI_API_KEY E = Some key" "key \<noteq> []" "GITHUB_TOKEN E = Some tok" "tok \<noteq> []"
    and "GITHUB_EVENT_PATH E = Some path" "event_file E path = Parsed (JObject items)"
    and "map_of items ''pull_request'' = Some (JObject pull)" "map_of pull ''number'' = Some pr"
    and "get_pr_commits W (GITHUB_REPOSITORY E) pr tok = Inr commits"
    and "feedback (main L E W) = []"
  shows "outcome (main L E W) = Returned \<and>
         filter is_PostComment (events (main L E W)) = [] \<and>
         last (events (main L E W)) = Print NoFeedback"
proof -
  let ?init = "loop_entry (snd (load_context L (worktree E))) (GITHUB_REPOSITORY E) pr tok (length commits)"
  let ?final = "review_commits L W (GITHUB_REPOSITORY E) tok (fst (load_context L (worktree E))) commits ?init"
  have m: "main L E W = publish L W (GITHUB_REPOSITORY E) pr tok ?final"
    using assms(1-9) by (rule main_reaches_loop)
  from assms(10) have empty: "all_feedback ?final = []"
    by (simp only: m feedback_publish)
  have "filter is_PostComment (trace ?init) = []"
    by (simp add: loop_entry_def filter_empty_conv)
  then have none: "filter is_PostComment (trace ?final) = []"
    by (simp only: review_commits_PostComment)
  have p: "publish L W (GITHUB_REPOSITORY E) pr tok ?final =
      \<lparr>events = trace ?final @ [Print NoFeedback], feedback = all_feedback ?final,
       outcome = Returned\<rparr>"
    using empty by (simp add: publish_def)
  show ?thesis
    using none by (simp add: m p)
qed

theorem no_feedback_no_comment_witness:
  "GEMINI_API_KEY example_env = Some ''key'' \<and> ''key'' \<noteq> [] \<and>
   GITHUB_TOKEN example_env = Some ''token'' \<and> ''token'' \<noteq> [] \<and>
   GITHUB_EVENT_PATH example_env = Some ''event.json'' \<and>
   event_file example_env ''event.json'' = Parsed (JObject event_items) \<and>
   map_of event_items ''pull_request'' = Some (JObject pull_request_items) \<and>
   map_of pull_request_items ''number'' = Some (JInt 7) \<and>
   get_pr_commits failing_model_world (GITHUB_REPOSITORY example_env) (JInt 7) ''token'' =
     Inr [add_form, add_bundle] \<and>
   feedback (main example_lib example_env failing_model_world) = [] \<and>
   outcome (main example_lib example_env failing_model_world) = Returned \<and>
   filter is_PostComment (events (main example_lib example_env failing_model_world)) = []"
proof -
  have a: "GEMINI_API_KEY example_env = Some ''key''" "''key'' \<noteq> []"
    "GITHUB_TOKEN example_env = Some ''token''" "''token'' \<noteq> []"
    "GITHUB_EVENT_PATH example_env = Some ''event.json''"
    "event_file example_env ''event.json'' = Parsed (JObject event_items)"
    "map_of event_items ''pull_request'' = Some (JObject pull_request_items)"
    "map_of pull_request_items ''number'' = Some (JInt 7)"
    "get_pr_commits failing_model_world (GITHUB_REPOSITORY example_env) (JInt 7) ''token'' =
       Inr [add_form, add_bundle]"
    by (simp_all add: example_env_def example_world_def failing_model_world_def event_items_def
        pull_request_items_def)
  have f: "feedback (main example_lib example_env failing_model_world) = []"
    by code_simp
  from no_feedback_no_comment[OF a f] a f show ?thesis
    by blast
qed

text \<open>
  C7. When the API key or the token is absent or empty, the run prints one line and
  returns; it makes no network call of any kind.
\<close>

theorem missing_secret_halts:
  assumes "\<not> truthy (GEMINI_API_KEY E) \<or> \<not> truthy (GITHUB_TOKEN E)"
  shows "main L E W = \<lparr>events = [Print MissingKeyOrToken], feedback = [], outcome = Returned\<rparr> \<and>
         filter (\<lambda>e. \<not> is_Print e) (events (main L E W)) = []"
  using assms by (auto simp: main_def Let_def)

theorem missing_secret_halts_witness:
  "\<not> truthy (GEMINI_API_KEY (example_env\<lparr>GEMINI_API_KEY := None\<rparr>)) \<and>
   events (main example_lib (example_env\<lparr>GEMINI_API_KEY := None\<rparr>) example_world) =
     [Print MissingKeyOrToken] \<and>
   \<not> truthy (GITHUB_TOKEN (example_env\<lparr>GITHUB_TOKEN := Some []\<rparr>)) \<and>
   events (main example_lib (example_env\<lparr>GITHUB_TOKEN := Some []\<rparr>) example_world) =
     [Print MissingKeyOrToken]"
proof -
  have a: "\<not> truthy (GEMINI_API_KEY (example_env\<lparr>GEMINI_API_KEY := None\<rparr>))"
    by simp
  have b: "\<not> truthy (GITHUB_TOKEN (example_env\<lparr>GITHUB_TOKEN := Some []\<rparr>))"
    by simp
  from missing_secret_halts[OF disjI1, OF a, of example_lib example_world]
    missing_secret_halts[OF disjI2, OF b, of example_lib example_world] a b
  show ?thesis by simp
qed

lemma pr_number_read:
  assumes "map_of items ''pull_request'' = Some (JObject pull)" "map_of pull ''number'' = Some pr"
  shows "py_contains ''pull_request'' (JObject items) = Inr True \<and>
         py_subscript (JObject items) ''pull_request'' = Inr (JObject pull) \<and>
         py_subscript (JObject pull) ''number'' = Inr pr"
  using assms by simp

text \<open>
  C9, as amended. The fatal conditions that \<open>main\<close> checks for end the run by an early
  normal return after a printed line: a missing or empty secret, a payload in which
  \<open>pull_request\<close> is not found, and a failed fetch of the commit list. Loading and
  reading the event payload is not guarded: with the path variable unset, the file
  unreadable, its JSON malformed, a payload on which the test for \<open>pull_request\<close>
  raises (\<open>null\<close>, a boolean, a number) or a payload from which
  \<open>['pull_request']['number']\<close> cannot be read, the exception leaves \<open>main\<close> before
  anything is printed.
\<close>

theorem checked_fatal_conditions_return:
  "(\<not> truthy (GEMINI_API_KEY E) \<or> \<not> truthy (GITHUB_TOKEN E) \<longrightarrow>
      outcome (main L E W) = Returned \<and> events (main L E W) = [Print MissingKeyOrToken]) \<and>
   (truthy (GEMINI_API_KEY E) \<and> truthy (GITHUB_TOKEN E) \<and>
    GITHUB_EVENT_PATH E = Some path \<and> event_file E path = Parsed event_data \<and>
    py_contains ''pull_request'' event_data = Inr False \<longrightarrow>
      outcome (main L E W) = Returned \<and> events (main L E W) = [Print NotPullRequest]) \<and>
   (truthy (GEMINI_API_KEY E) \<and> GITHUB_TOKEN E = Some tok \<and> tok \<noteq> [] \<and>
    GITHUB_EVENT_PATH E = Some path \<and> event_file E path = Parsed (JObject items) \<and>
    map_of items ''pull_request'' = Some (JObject pull) \<and> map_of pull ''number'' = Some pr \<and>
    get_pr_commits W (GITHUB_REPOSITORY E) pr tok = Inl e \<longrightarrow>
      outcome (main L E W) = Returned \<and>
      last (events (main L E W)) = Print (ErrorFetchingCommits e) \<and>
      filter is_GetCommit (events (main L E W)) = []) \<and>
   (truthy (GEMINI_API_KEY E) \<and> truthy (GITHUB_TOKEN E) \<and>
    (GITHUB_EVENT_PATH E = None \<and> e = ''TypeError'' \<or>
     GITHUB_EVENT_PATH E = Some path \<and>
       (event_file E path = OpenError e \<or>
        event_file E path = JSONDecodeError e \<or>
        event_file E path = Parsed event_data \<and>
          (py_contains ''pull_request'' event_data = Inl e \<or>
           py_contains ''pull_request'' event_data = Inr True \<and>
             (py_subscript event_data ''pull_request'' = Inl e \<or>
              py_subscript event_data ''pull_request'' = Inr pull_request \<and>
                py_subscript pull_request ''number'' = Inl e)))) \<longrightarrow>
      main L E W = \<lparr>events = [], feedback = [], outcome = Raised e\<rparr>)"
proof -
  have 1: "\<not> truthy (GEMINI_API_KEY E) \<or> \<not> truthy (GITHUB_TOKEN E) \<longrightarrow>
      outcome (main L E W) = Returned \<and> events (main L E W) = [Print MissingKeyOrToken]"
    by (auto simp: main_def Let_def)
  have 2: "truthy (GEMINI_API_KEY E) \<and> truthy (GITHUB_TOKEN E) \<and>
    GITHUB_EVENT_PATH E = Some path \<and> event_file E path = Parsed event_data \<and>
    py_contains ''pull_request'' event_data = Inr False \<longrightarrow>
      outcome (main L E W) = Returned \<and> events (main L E W) = [Print NotPullRequest]"
    by (simp add: main_def Let_def)
  have 3: "truthy (GEMINI_API_KEY E) \<and> GITHUB_TOKEN E = Some tok \<and> tok \<noteq> [] \<and>
    GITHUB_EVENT_PATH E = Some path \<and> event_file E path = Parsed (JObject items) \<and>
    map_of items ''pull_request'' = Some (JObject pull) \<and> map_of pull ''number'' = Some pr \<and>
    get_pr_commits W (GITHUB_REPOSITORY E) pr tok = Inl e \<longrightarrow>
      outcome (main L E W) = Returned \<and>
      last (events (main L E W)) = Print (ErrorFetchingCommits e) \<and>
      filter is_GetCommit (events (main L E W)) = []"
  proof
    assume a: "truthy (GEMINI_API_KEY E) \<and> GITHUB_TOKEN E = Some tok \<and> tok \<noteq> [] \<and>
      GITHUB_EVENT_PATH E = Some path \<and> event_file E path = Parsed (JObject items) \<and>
      map_of items ''pull_request'' = Some (JObject pull) \<and> map_of pull ''number'' = Some pr \<and>
      get_pr_commits W (GITHUB_REPOSITORY E) pr tok = Inl e"
    then have "py_contains ''pull_request'' (JObject items) = Inr True \<and>
         py_subscript (JObject items) ''pull_request'' = Inr (JObject pull) \<and>
         py_subscript (JObject pull) ''number'' = Inr pr"
      by (intro pr_number_read) simp_all
    with a show "outcome (main L E W) = Returned \<and>
        last (events (main L E W)) = Print (ErrorFetchingCommits e) \<and>
        filter is_GetCommit (events (main L E W)) = []"
      by (simp add: main_def Let_def filter_empty_conv split: prod.splits)
  qed
  have 4: "truthy (GEMINI_API_KEY E) \<and> truthy (GITHUB_TOKEN E) \<and>
    (GITHUB_EVENT_PATH E = None \<and> e = ''TypeError'' \<or>
     GITHUB_EVENT_PATH E = Some path \<and>
       (event_file E path = OpenError e \<or>
        event_file E path = JSONDecodeError e \<or>
        event_file E path = Parsed event_data \<and>
          (py_contains ''pull_request'' event_data = Inl e \<or>
           py_contains ''pull_request'' event_data = Inr True \<and>
             (py_subscript event_data ''pull_request'' = Inl e \<or>
              py_subscript event_data ''pull_request'' = Inr pull_request \<and>
                py_subscript pull_request ''number'' = Inl e)))) \<longrightarrow>
      main L E W = \<lparr>events = [], feedback = [], outcome = Raised e\<rparr>"
    by (auto simp: main_def Let_def)
  from 1 2 3 4 show ?thesis by (intro conjI)
qed

text \<open>
  The claim as it is written fails: in each of the three configurations that it names, with
  both secrets present, \<open>main\<close> ends by an exception; so it does when the payload is
  \<open>null\<close>, when its \<open>pull_request\<close> has no \<open>number\<close>, and when its
  \<open>pull_request\<close> is \<open>null\<close>.
\<close>

theorem uncaught_exception_counterexample:
  "truthy (GEMINI_API_KEY no_event_path) \<and> truthy (GITHUB_TOKEN no_event_path) \<and>
   GITHUB_EVENT_PATH no_event_path = None \<and>
   main example_lib no_event_path example_world =
     \<lparr>events = [], feedback = [], outcome = Raised ''TypeError''\<rparr> \<and>
   main example_lib unreadable_event example_world =
     \<lparr>events = [], feedback = [], outcome = Raised ''FileNotFoundError''\<rparr> \<and>
   main example_lib malformed_event example_world =
     \<lparr>events = [], feedback = [], outcome = Raised ''Expecting value''\<rparr> \<and>
   main example_lib null_event example_world =
     \<lparr>events = [], feedback = [], outcome = Raised ''TypeError''\<rparr> \<and>
   main example_lib no_number_event example_world =
     \<lparr>events = [], feedback = [], outcome = Raised ''KeyError''\<rparr> \<and>
   main example_lib null_pull_request_event example_world =
     \<lparr>events = [], feedback = [], outcome = Raised ''TypeError''\<rparr>"
  by (simp add: main_def Let_def no_event_path_def unreadable_event_def malformed_event_def
      null_event_def no_number_event_def null_pull_request_event_def example_env_def)

theorem checked_fatal_conditions_return_witness:
  "(\<not> truthy (GEMINI_API_KEY (example_env\<lparr>GEMINI_API_KEY := None\<rparr>)) \<and>
    outcome (main example_lib (example_env\<lparr>GEMINI_API_KEY := None\<rparr>) example_world) = Returned) \<and>
   (truthy (GEMINI_API_KEY push_event) \<and> truthy (GITHUB_TOKEN push_event) \<and>
    GITHUB_EVENT_PATH push_event = Some ''event.json'' \<and>
    event_file push_event ''event.json'' = Parsed (JObject [(''ref'', JString ''refs/heads/main'')]) \<and>
    py_contains ''pull_request'' (JObject [(''ref'', JString ''refs/heads/main'')]) = Inr False \<and>
    outcome (main example_lib push_event example_world) = Returned \<and>
    events (main example_lib push_event example_world) = [Print NotPullRequest]) \<and>
   (truthy (GEMINI_API_KEY example_env) \<and> GITHUB_TOKEN example_env = Some ''token'' \<and> ''token'' \<noteq> [] \<and>
    GITHUB_EVENT_PATH example_env = Some ''event.json'' \<and>
    event_file example_env ''event.json'' = Parsed (JObject event_items) \<and>
    map_of event_items ''pull_request'' = Some (JObject pull_request_items) \<and>
    map_of pull_request_items ''number'' = Some (JInt 7) \<and>
    get_pr_commits no_commit_list_world (GITHUB_REPOSITORY example_env) (JInt 7) ''token'' = Inl ''HTTPError'' \<and>
    outcome (main example_lib example_env no_commit_list_world) = Returned \<and>
    last (events (main example_lib example_env no_commit_list_world)) =
      Print (ErrorFetchingCommits ''HTTPError'')) \<and>
   (truthy (GEMINI_API_KEY no_number_event) \<and> truthy (GITHUB_TOKEN no_number_event) \<and>
    GITHUB_EVENT_PATH no_number_event = Some ''event.json'' \<and>
    event_file no_number_event ''event.json'' =
      Parsed (JObject [(''pull_request'', JObject [(''title'', JString ''Form'')])]) \<and>
    py_contains ''pull_request'' (JObject [(''pull_request'', JObject [(''title'', JString ''Form'')])]) =
      Inr True \<and>
    py_subscript (JObject [(''pull_request'', JObject [(''title'', JString ''Form'')])]) ''pull_request'' =
      Inr (JObject [(''title'', JString ''Form'')]) \<and>
    py_subscript (JObject [(''title'', JString ''Form'')]) ''number'' = Inl ''KeyError'' \<and>
    outcome (main example_lib no_number_event example_world) = Raised ''KeyError'')"
proof -
  have a: "\<not> truthy (GEMINI_API_KEY (example_env\<lparr>GEMINI_API_KEY := None\<rparr>))"
    by simp
  have b: "truthy (GEMINI_API_KEY push_event)" "truthy (GITHUB_TOKEN push_event)"
    "GITHUB_EVENT_PATH push_event = Some ''event.json''"
    "event_file push_event ''event.json'' = Parsed (JObject [(''ref'', JString ''refs/heads/main'')])"
    "py_contains ''pull_request'' (JObject [(''ref'', JString ''refs/heads/main'')]) = Inr False"
    by (simp_all add: push_event_def example_env_def)
  have c: "truthy (GEMINI_API_KEY example_env)" "GITHUB_TOKEN example_env = Some ''token''"
    "''token'' \<noteq> []" "GITHUB_EVENT_PATH example_env = Some ''event.json''"
    "event_file example_env ''event.json'' = Parsed (JObject event_items)"
    "map_of event_items ''pull_request'' = Some (JObject pull_request_items)"
    "map_of pull_request_items ''number'' = Some (JInt 7)"
    "get_pr_commits no_commit_list_world (GITHUB_REPOSITORY example_env) (JInt 7) ''token'' = Inl ''HTTPError''"
    by (simp_all add: example_env_def no_commit_list_world_def event_items_def pull_request_items_def)
  have d: "truthy (GEMINI_API_KEY no_number_event)" "truthy (GITHUB_TOKEN no_number_event)"
    "GITHUB_EVENT_PATH no_number_event = Some ''event.json''"
    "event_file no_number_event ''event.json'' =
      Parsed (JObject [(''pull_request'', JObject [(''title'', JString ''Form'')])])"
    "py_contains ''pull_request'' (JObject [(''pull_request'', JObject [(''title'', JString ''Form'')])]) =
      Inr True"
    "py_subscript (JObject [(''pull_request'', JObject [(''title'', JString ''Form'')])]) ''pull_request'' =
      Inr (JObject [(''title'', JString ''Form'')])"
    "py_subscript (JObject [(''title'', JString ''Form'')]) ''number'' = Inl ''KeyError''"
    by (simp_all add: no_number_event_def example_env_def)
  from a checked_fatal_conditions_return[of "example_env\<lparr>GEMINI_API_KEY := None\<rparr>" example_lib example_world]
  have 1: "outcome (main example_lib (example_env\<lparr>GEMINI_API_KEY := None\<rparr>) example_world) = Returned"
    by blast
  from b checked_fatal_conditions_return[of push_event example_lib example_world "''event.json''"
      "JObject [(''ref'', JString ''refs/heads/main'')]"]
  have 2: "outcome (main example_lib push_event example_world) = Returned \<and>
    events (main example_lib push_event example_world) = [Print NotPullRequest]"
    by blast
  from c checked_fatal_conditions_return[of example_env example_lib no_commit_list_world
      "''event.json''" _ "''token''" event_items pull_request_items "JInt 7" "''HTTPError''"]
  have 3: "outcome (main example_lib example_env no_commit_list_world) = Returned \<and>
    last (events (main example_lib example_env no_commit_list_world)) =
      Print (ErrorFetchingCommits ''HTTPError'')"
    by blast
  from d checked_fatal_conditions_return[of no_number_event example_lib example_world
      "''event.json''" "JObject [(''pull_request'', JObject [(''title'', JString ''Form'')])]"
      _ _ _ _ "''KeyError''" "JObject [(''title'', JString ''Form'')]"]
  have "main example_lib no_number_event example_world =
      \<lparr>events = [], feedback = [], outcome = Raised ''KeyError''\<rparr>"
    by blast
  then have 4: "outcome (main example_lib no_number_event example_world) = Raised ''KeyError''"
    by simp
  from a b c d 1 2 3 4 show ?thesis by blast
qed

subsection \<open>Letter case of extensions\<close>

lemma supported_lower_case:
  "a \<in> set SUPPORTED_EXTENSIONS \<Longrightarrow> map ascii_lower a = a"
proof -
  have "list_all (\<lambda>a. map ascii_lower a = a) SUPPORTED_EXTENSIONS"
    by code_simp
  then show "a \<in> set SUPPORTED_EXTENSIONS \<Longrightarrow> map ascii_lower a = a"
    by (simp add: list_all_iff)
qed

text \<open>
  C10. The extension is compared as it is written: a path whose extension differs from an
  allowlisted extension in letter case only is ignored, whether or not it has a denylisted
  directory segment.
\<close>

theorem extension_match_case_sensitive:
  assumes "a \<in> set SUPPORTED_EXTENSIONS"
    and "snd (splitext p) \<noteq> a"
    and "same_up_to_case (snd (splitext p)) a"
  shows "should_ignore_file p"
proof -
  have "snd (splitext p) \<notin> set SUPPORTED_EXTENSIONS"
  proof
    assume "snd (splitext p) \<in> set SUPPORTED_EXTENSIONS"
    then have "map ascii_lower (snd (splitext p)) = snd (splitext p)"
      by (rule supported_lower_case)
    moreover have "map ascii_lower a = a"
      using assms(1) by (rule supported_lower_case)
    ultimately show False
      using assms(2,3) by (simp add: same_up_to_case_def)
  qed
  then show ?thesis
    by (simp add: should_ignore_file_def should_ignore_in_iff)
qed

theorem extension_match_case_sensitive_witness:
  "''.html'' \<in> set SUPPORTED_EXTENSIONS \<and>
   snd (splitext ''index.HTML'') = ''.HTML'' \<and> ''.HTML'' \<noteq> ''.html'' \<and>
   same_up_to_case (snd (splitext ''index.HTML'')) ''.html'' \<and>
   \<not> has_ignored_segment ''index.HTML'' \<and>
   should_ignore_file ''index.HTML'' \<and>
   ''.js'' \<in> set SUPPORTED_EXTENSIONS \<and>
   snd (splitext ''src/app.Js'') = ''.Js'' \<and>
   same_up_to_case (snd (splitext ''src/app.Js'')) ''.js'' \<and>
   should_ignore_file ''src/app.Js''"
proof -
  have a: "''.html'' \<in> set SUPPORTED_EXTENSIONS" "''.js'' \<in> set SUPPORTED_EXTENSIONS"
    by (simp_all add: SUPPORTED_EXTENSIONS_def)
  have b: "snd (splitext ''index.HTML'') = ''.HTML''" "snd (splitext ''src/app.Js'') = ''.Js''"
    by code_simp+
  have c: "same_up_to_case (snd (splitext ''index.HTML'')) ''.html''"
    "same_up_to_case (snd (splitext ''src/app.Js'')) ''.js''"
    by code_simp+
  have d: "\<not> has_ignored_segment ''index.HTML''"
    by code_simp
  have e: "snd (splitext ''index.HTML'') \<noteq> ''.html''" "snd (splitext ''src/app.Js'') \<noteq> ''.js''"
    by (simp_all add: b)
  from extension_match_case_sensitive[OF a(1) e(1) c(1)]
    extension_match_case_sensitive[OF a(2) e(2) c(2)] a b c d
  show ?thesis by simp
qed

end
